theory Spec2Isabelle
  imports Main "HOL-Library.AList" "HOL-Library.Char_ord" "HOL-Library.List_Lexorder"
begin

section \<open>Release gate (jenkins/python/release\_gate.py)\<close>

text \<open>
  A shallow embedding of \<^verbatim>\<open>release_gate.py\<close>. Python values that come out of
  \<^verbatim>\<open>json.loads\<close> or \<^verbatim>\<open>yaml.safe_load\<close> are values of the
  datatype \<open>json\<close>; a Python \<^verbatim>\<open>str\<close> is a \<open>string\<close> of ASCII characters
  (the case mapping and the white space of the code points beyond ASCII are not modelled);
  floating point numbers are left out. Every exception the code can raise is a value of
  \<open>py_exc\<close>, and a function that can raise returns \<open>py_exc + 'a\<close>.
\<close>

subsection \<open>Python values\<close>

datatype json =
    JNull
  | JBool bool
  | JInt int
  | JStr string
  | JList "json list"
  | JDict "(string \<times> json) list"

text \<open>
  \<open>JDict kvs\<close> stands for the dict that binds each key to its first binding in \<open>kvs\<close>;
  a parser that keeps the last of two equal keys, as \<^verbatim>\<open>json.loads\<close> does, returns
  the list with that binding only.
\<close>

datatype py_exc =
    FileNotFoundError
  | IsADirectoryError
  | JSONDecodeError
  | AttributeError
  | TypeError
  | ValueError
  | KeyError

text \<open>The exit codes.\<close>

definition PASS :: int where "PASS = 0"
definition E_POLICY_FAIL :: int where "E_POLICY_FAIL = 10"
definition E_CRITICAL_PRESENT :: int where "E_CRITICAL_PRESENT = 11"
definition E_HIGH_THRESHOLD :: int where "E_HIGH_THRESHOLD = 12"
definition E_MANIFEST_SIGN :: int where "E_MANIFEST_SIGN = 13"
definition E_REQUIRED_OUTPUTS :: int where "E_REQUIRED_OUTPUTS = 14"
definition E_REPORT_SECTIONS :: int where "E_REPORT_SECTIONS = 15"
definition E_SECRETS_IN_OUTPUTS :: int where "E_SECRETS_IN_OUTPUTS = 16"

definition SEV_ORDER :: "string list" where
  "SEV_ORDER = [''CRITICAL'', ''HIGH'', ''MEDIUM'', ''LOW'', ''INFO'', ''UNSPECIFIED'']"

subsection \<open>Strings: \<^verbatim>\<open>upper\<close>, \<^verbatim>\<open>lower\<close>, \<^verbatim>\<open>strip\<close>, \<^verbatim>\<open>in\<close>, \<^verbatim>\<open>str\<close>\<close>

definition is_lower_char :: "char \<Rightarrow> bool" where
  "is_lower_char c = (97 \<le> (of_char c :: nat) \<and> (of_char c :: nat) \<le> 122)"

definition is_upper_char :: "char \<Rightarrow> bool" where
  "is_upper_char c = (65 \<le> (of_char c :: nat) \<and> (of_char c :: nat) \<le> 90)"

definition upper_char :: "char \<Rightarrow> char" where
  "upper_char c = (if is_lower_char c then char_of ((of_char c :: nat) - 32) else c)"

definition lower_char :: "char \<Rightarrow> char" where
  "lower_char c = (if is_upper_char c then char_of ((of_char c :: nat) + 32) else c)"

definition py_upper :: "string \<Rightarrow> string" where
  "py_upper s = map upper_char s"

definition py_lower :: "string \<Rightarrow> string" where
  "py_lower s = map lower_char s"

text \<open>
  The characters \<^verbatim>\<open>str.strip()\<close> removes: tab, line feed, vertical tab, form feed,
  carriage return, the four separators \<^verbatim>\<open>\x1c\<close> to \<^verbatim>\<open>\x1f\<close>, and the space.
\<close>

definition is_space :: "char \<Rightarrow> bool" where
  "is_space c = (let n = (of_char c :: nat) in (9 \<le> n \<and> n \<le> 13) \<or> (28 \<le> n \<and> n \<le> 32))"

definition py_strip :: "string \<Rightarrow> string" where
  "py_strip s = rev (dropWhile is_space (rev (dropWhile is_space s)))"

text \<open>\<^verbatim>\<open>needle in hay\<close> on strings: \<open>needle\<close> occurs in \<open>hay\<close> as a block.\<close>

fun starts_with :: "string \<Rightarrow> string \<Rightarrow> bool" where
  "starts_with hay [] = True"
| "starts_with [] (c # cs) = False"
| "starts_with (h # hs) (c # cs) = (h = c \<and> starts_with hs cs)"

fun py_in :: "string \<Rightarrow> string \<Rightarrow> bool" where
  "py_in needle [] = (needle = [])"
| "py_in needle (h # hs) = (starts_with (h # hs) needle \<or> py_in needle hs)"

text \<open>\<^verbatim>\<open>sep.join(xs)\<close>.\<close>

fun py_join :: "string \<Rightarrow> string list \<Rightarrow> string" where
  "py_join sep [] = []"
| "py_join sep [x] = x"
| "py_join sep (x # y # ys) = x @ sep @ py_join sep (y # ys)"

text \<open>Decimal digits of a natural number, and \<^verbatim>\<open>str\<close> of an \<^verbatim>\<open>int\<close>.\<close>

definition digit_char :: "nat \<Rightarrow> char" where
  "digit_char d = char_of (48 + d)"

fun nat_digits :: "nat \<Rightarrow> string" where
  "nat_digits n = (if n < 10 then [digit_char n] else nat_digits (n div 10) @ [digit_char (n mod 10)])"

declare nat_digits.simps [simp del]

definition int_str :: "int \<Rightarrow> string" where
  "int_str i = (if i < 0 then CHR ''-'' # nat_digits (nat (- i)) else nat_digits (nat i))"

text \<open>
  \<^verbatim>\<open>repr\<close> of a string: single quotes, unless the string has a single quote and no
  double quote; the backslash, the chosen quote, tab, line feed and carriage return are
  escaped, and the other characters outside the printable ASCII range are written
  \<^verbatim>\<open>\xNN\<close>.
\<close>

definition hex_digit :: "nat \<Rightarrow> char" where
  "hex_digit d = (if d < 10 then char_of (48 + d) else char_of (87 + d))"

definition repr_char :: "char \<Rightarrow> char \<Rightarrow> string" where
  "repr_char q c =
     (let n = (of_char c :: nat) in
      if c = CHR 0x5C then [CHR 0x5C, CHR 0x5C]
      else if c = q then [CHR 0x5C, q]
      else if n = 9 then [CHR 0x5C, CHR ''t'']
      else if n = 10 then [CHR 0x5C, CHR ''n'']
      else if n = 13 then [CHR 0x5C, CHR ''r'']
      else if n < 32 \<or> 127 \<le> n then [CHR 0x5C, CHR ''x'', hex_digit (n div 16), hex_digit (n mod 16)]
      else [c])"

definition repr_str :: "string \<Rightarrow> string" where
  "repr_str s =
     (let q = (if CHR 0x27 \<in> set s \<and> CHR 0x22 \<notin> set s then CHR 0x22 else CHR 0x27)
      in [q] @ concat (map (repr_char q) s) @ [q])"

text \<open>The items of a dict in the order of insertion: the first binding of each key.\<close>

fun dict_items :: "(string \<times> 'v) list \<Rightarrow> (string \<times> 'v) list" where
  "dict_items [] = []"
| "dict_items ((k, v) # kvs) = (k, v) # dict_items (filter (\<lambda>(k', v'). k' \<noteq> k) kvs)"

primrec py_repr :: "json \<Rightarrow> string" where
  "py_repr JNull = ''None''"
| "py_repr (JBool b) = (if b then ''True'' else ''False'')"
| "py_repr (JInt i) = int_str i"
| "py_repr (JStr s) = repr_str s"
| "py_repr (JList xs) = ''['' @ py_join '', '' (map py_repr xs) @ '']''"
| "py_repr (JDict kvs) =
     ''{'' @ py_join '', '' (map (\<lambda>(k, r). repr_str k @ '': '' @ r) (dict_items (map (map_prod id py_repr) kvs))) @ ''}''"

text \<open>\<^verbatim>\<open>str(v)\<close>: the string itself for a string, \<^verbatim>\<open>repr\<close> for the rest.\<close>

definition py_str :: "json \<Rightarrow> string" where
  "py_str v = (case v of JStr s \<Rightarrow> s | _ \<Rightarrow> py_repr v)"

subsection \<open>The severity aggregator\<close>

type_synonym counts = "(string \<times> int) list"

text \<open>\<^verbatim>\<open>d.get(k, dflt)\<close> on a dict, and on any value: only a dict has the method.\<close>

definition dict_get :: "(string \<times> 'v) list \<Rightarrow> string \<Rightarrow> 'v \<Rightarrow> 'v" where
  "dict_get d k dflt = (case map_of d k of None \<Rightarrow> dflt | Some v \<Rightarrow> v)"

definition py_get :: "json \<Rightarrow> string \<Rightarrow> json \<Rightarrow> py_exc + json" where
  "py_get obj k dflt = (case obj of JDict d \<Rightarrow> Inr (dict_get d k dflt) | _ \<Rightarrow> Inl AttributeError)"

text \<open>\<^verbatim>\<open>{s: 0 for s in SEV_ORDER}\<close>\<close>

definition zero_counts :: counts where
  "zero_counts = map (\<lambda>s. (s, 0)) SEV_ORDER"

text \<open>
  The loop of \<^verbatim>\<open>count_severities\<close>, with the dict \<^verbatim>\<open>counts\<close> passed along.
  \<^verbatim>\<open>f.get\<close> raises on an element that is no dict, and \<^verbatim>\<open>counts[s] += 1\<close>
  raises on a key that \<^verbatim>\<open>counts\<close> does not have.
\<close>

fun count_loop :: "counts \<Rightarrow> json list \<Rightarrow> py_exc + counts" where
  "count_loop counts [] = Inr counts"
| "count_loop counts (f # fs) =
     (case py_get f ''severity'' (JStr ''UNSPECIFIED'') of
        Inl e \<Rightarrow> Inl e
      | Inr v \<Rightarrow>
          (let s = py_strip (py_upper (py_str v));
               s = (if s \<notin> set (map fst counts) then ''UNSPECIFIED'' else s)
           in case map_of counts s of
                None \<Rightarrow> Inl KeyError
              | Some n \<Rightarrow> count_loop (AList.update s (n + 1) counts) fs))"

definition count_severities :: "json list \<Rightarrow> py_exc + counts" where
  "count_severities findings = count_loop zero_counts findings"

subsection \<open>Truth values, iteration and \<^verbatim>\<open>int()\<close>\<close>

text \<open>The truth value of a Python value, and \<^verbatim>\<open>a or b\<close>.\<close>

fun truthy :: "json \<Rightarrow> bool" where
  "truthy JNull = False"
| "truthy (JBool b) = b"
| "truthy (JInt i) = (i \<noteq> 0)"
| "truthy (JStr s) = (s \<noteq> [])"
| "truthy (JList xs) = (xs \<noteq> [])"
| "truthy (JDict kvs) = (kvs \<noteq> [])"

definition py_or :: "json \<Rightarrow> json \<Rightarrow> json" where
  "py_or a b = (if truthy a then a else b)"

text \<open>
  What a \<^verbatim>\<open>for\<close> loop runs over: the elements of a list, the characters of a
  string, the keys of a dict; the other values are not iterable.
\<close>

definition py_iter :: "json \<Rightarrow> py_exc + json list" where
  "py_iter v =
     (case v of
        JList xs \<Rightarrow> Inr xs
      | JStr s \<Rightarrow> Inr (map (\<lambda>c. JStr [c]) s)
      | JDict kvs \<Rightarrow> Inr (map (\<lambda>(k, x). JStr k) (dict_items kvs))
      | _ \<Rightarrow> Inl TypeError)"

text \<open>
  \<^verbatim>\<open>int(v)\<close>. A string is stripped, may have a sign, and is a run of decimal digits
  in which single underscores may stand between digits.
\<close>

definition is_digit :: "char \<Rightarrow> bool" where
  "is_digit c = (48 \<le> (of_char c :: nat) \<and> (of_char c :: nat) \<le> 57)"

fun digits_ok :: "string \<Rightarrow> bool" where
  "digits_ok [] = False"
| "digits_ok [c] = is_digit c"
| "digits_ok (c # d # cs) =
     (is_digit c \<and> (if d = CHR ''_'' then digits_ok cs else digits_ok (d # cs)))"

definition digits_val :: "string \<Rightarrow> int" where
  "digits_val s =
     foldl (\<lambda>a c. 10 * a + int ((of_char c :: nat) - 48)) 0 (filter (\<lambda>c. c \<noteq> CHR ''_'') s)"

definition int_of_str :: "string \<Rightarrow> int option" where
  "int_of_str s =
     (let t = py_strip s;
          neg = (t \<noteq> [] \<and> hd t = CHR ''-'');
          body = (if t \<noteq> [] \<and> (hd t = CHR ''-'' \<or> hd t = CHR ''+'') then tl t else t)
      in if digits_ok body then Some (if neg then - digits_val body else digits_val body)
         else None)"

definition py_int :: "json \<Rightarrow> py_exc + int" where
  "py_int v =
     (case v of
        JInt i \<Rightarrow> Inr i
      | JBool b \<Rightarrow> Inr (if b then 1 else 0)
      | JStr s \<Rightarrow> (case int_of_str s of None \<Rightarrow> Inl ValueError | Some i \<Rightarrow> Inr i)
      | _ \<Rightarrow> Inl TypeError)"

subsection \<open>Files, parsers and what a run does\<close>

text \<open>
  The file system maps a path to what is there; the two parsers are those of the Python
  libraries, \<open>None\<close> where they raise. \<open>yaml_safe_load\<close> is \<open>None\<close> where the module
  \<^verbatim>\<open>yaml\<close> cannot be imported. Paths are strings, joined as \<^verbatim>\<open>pathlib\<close> joins them
  and not normalised further. A file holds its decoded text.
\<close>

datatype node = Dir | File string

record env =
  files :: "string \<Rightarrow> node option"
  json_loads :: "string \<Rightarrow> json option"
  yaml_safe_load :: "(string \<Rightarrow> json option) option"

text \<open>
  The messages appended to \<^verbatim>\<open>fails\<close> and \<^verbatim>\<open>warns\<close>, with the values their
  f-strings show, and the lines a run prints, one per call of \<^verbatim>\<open>print\<close>.
\<close>

datatype msg =
    MissingRequiredOutputs "string list"
  | PolicyReportStatus json json
  | PolicyReportPostStatus json json
  | SignerNotAllowed string "string list"
  | ManifestSigMissing
  | FindingsNotList
  | CriticalPresent
  | HighExceed int int
  | MediumExceed int int
  | ReportMissingSections "string list"

datatype line =
    DisabledLine string
  | SummaryHeader string
  | CountsTitle
  | CountRow string int
  | WarningsTitle
  | FailuresTitle
  | Bullet msg
  | SummaryFooter
  | ModeFailLine string int
  | OverallPassLine

text \<open>
  A run leaves a trace: the paths whose existence it tests, the files it reads, the lines
  it prints, in the order of the run. It ends with a value or with an exception.
\<close>

datatype event = Exists string | ReadText string | Print line

type_synonym 'a io = "event list \<times> (py_exc + 'a)"

definition io_return :: "'a \<Rightarrow> 'a io" where
  "io_return x = ([], Inr x)"

definition io_raise :: "py_exc \<Rightarrow> 'a io" where
  "io_raise e = ([], Inl e)"

definition io_lift :: "py_exc + 'a \<Rightarrow> 'a io" where
  "io_lift r = ([], r)"

definition io_bind :: "'a io \<Rightarrow> ('a \<Rightarrow> 'b io) \<Rightarrow> 'b io" where
  "io_bind m k =
     (case snd m of
        Inl e \<Rightarrow> (fst m, Inl e)
      | Inr x \<Rightarrow> (fst m @ fst (k x), snd (k x)))"

definition io_then :: "unit io \<Rightarrow> 'b io \<Rightarrow> 'b io" where
  "io_then m n = io_bind m (\<lambda>u. n)"

definition io_print :: "line \<Rightarrow> unit io" where
  "io_print l = ([Print l], Inr ())"

definition path_join :: "string \<Rightarrow> string \<Rightarrow> string" where
  "path_join a b = (if b \<noteq> [] \<and> hd b = CHR ''/'' then b else a @ ''/'' @ b)"

definition path_exists :: "env \<Rightarrow> string \<Rightarrow> bool io" where
  "path_exists E p = ([Exists p], Inr (files E p \<noteq> None))"

definition read_text :: "env \<Rightarrow> string \<Rightarrow> string io" where
  "read_text E p =
     ([ReadText p],
      case files E p of
        None \<Rightarrow> Inl FileNotFoundError
      | Some Dir \<Rightarrow> Inl IsADirectoryError
      | Some (File t) \<Rightarrow> Inr t)"

subsection \<open>The functions of \<^verbatim>\<open>release_gate.py\<close>\<close>

definition load_policy :: "env \<Rightarrow> string \<Rightarrow> json io" where
  "load_policy E policy_path =
     io_bind (read_text E policy_path) (\<lambda>txt.
       case (case yaml_safe_load E of None \<Rightarrow> None | Some y \<Rightarrow> y txt) of
         Some v \<Rightarrow> io_return v
       | None \<Rightarrow> (case json_loads E txt of None \<Rightarrow> io_raise JSONDecodeError | Some v \<Rightarrow> io_return v))"

definition read_json :: "env \<Rightarrow> string \<Rightarrow> json io" where
  "read_json E p =
     io_bind (read_text E p) (\<lambda>txt.
       case json_loads E txt of None \<Rightarrow> io_raise JSONDecodeError | Some v \<Rightarrow> io_return v)"

definition file_exists :: "env \<Rightarrow> string \<Rightarrow> string \<Rightarrow> bool io" where
  "file_exists E out_dir rel = path_exists E (path_join out_dir rel)"

text \<open>
  \<^verbatim>\<open>report_missing_sections\<close>: the loop over \<^verbatim>\<open>required\<close>;
  \<^verbatim>\<open>sec.lower()\<close> raises on a section that is no string.
\<close>

fun missing_loop :: "string \<Rightarrow> json list \<Rightarrow> py_exc + string list" where
  "missing_loop low [] = Inr []"
| "missing_loop low (sec # rest) =
     (case sec of
        JStr s \<Rightarrow>
          (case missing_loop low rest of
             Inl e \<Rightarrow> Inl e
           | Inr m \<Rightarrow> Inr (if \<not> py_in (py_lower s) low then s # m else m))
      | _ \<Rightarrow> Inl AttributeError)"

definition report_missing_sections :: "json \<Rightarrow> string \<Rightarrow> py_exc + string list" where
  "report_missing_sections required md_text =
     (let low = py_lower md_text
      in case py_iter required of Inl e \<Rightarrow> Inl e | Inr secs \<Rightarrow> missing_loop low secs)"

definition summary_lines :: "string \<Rightarrow> counts \<Rightarrow> msg list \<Rightarrow> msg list \<Rightarrow> line list" where
  "summary_lines mode counts warnings fails =
     [SummaryHeader mode, CountsTitle]
     @ map (\<lambda>s. CountRow s (dict_get counts s 0)) SEV_ORDER
     @ (if warnings \<noteq> [] then WarningsTitle # map Bullet warnings else [])
     @ (if fails \<noteq> [] then FailuresTitle # map Bullet fails else [])
     @ [SummaryFooter]"

definition summarize :: "string \<Rightarrow> counts \<Rightarrow> msg list \<Rightarrow> msg list \<Rightarrow> unit io" where
  "summarize mode counts warnings fails = (map Print (summary_lines mode counts warnings fails), Inr ())"

text \<open>
  \<^verbatim>\<open>gate_one_mode\<close>. Its body is the five numbered sections of the source; each of
  the sections 2 to 5 is a definition here, entered where the section before it falls
  through, so that a \<^verbatim>\<open>return\<close> inside a section ends the function. The dict
  \<^verbatim>\<open>rg\<close>, the mode and \<^verbatim>\<open>out_dir\<close> are passed along, and so are
  \<^verbatim>\<open>counts\<close> and \<^verbatim>\<open>warns\<close> from section 4 to section 5;
  \<^verbatim>\<open>fails\<close> is empty until the one message before a \<^verbatim>\<open>return\<close>.
\<close>

text \<open>The comprehension \<^verbatim>\<open>[f for f in required_files if not file_exists(out_dir, f)]\<close>;
  \<^verbatim>\<open>out_dir / f\<close> raises on an \<open>f\<close> that is no string.\<close>

fun missing_files :: "env \<Rightarrow> string \<Rightarrow> json list \<Rightarrow> string list io" where
  "missing_files E out_dir [] = io_return []"
| "missing_files E out_dir (f # fs) =
     (case f of
        JStr rel \<Rightarrow>
          io_bind (file_exists E out_dir rel) (\<lambda>ex.
          io_bind (missing_files E out_dir fs) (\<lambda>rest.
          io_return (if \<not> ex then rel # rest else rest)))
      | _ \<Rightarrow> io_raise TypeError)"

text \<open>Section 5, the report sections, and the final \<^verbatim>\<open>PASS\<close>.\<close>

definition gate_report :: "env \<Rightarrow> json \<Rightarrow> string \<Rightarrow> string \<Rightarrow> counts \<Rightarrow> msg list \<Rightarrow> int io" where
  "gate_report E rg mode out_dir counts warns =
     io_bind (read_text E (path_join out_dir ''consolidated_security_report.md'')) (\<lambda>md.
     io_bind (io_lift (py_get rg ''required_report_sections'' (JList []))) (\<lambda>r.
     let required_sections = py_or r (JList []) in
     io_bind (io_lift (report_missing_sections required_sections md)) (\<lambda>missing_sections.
     if missing_sections \<noteq> [] then
       io_then (summarize mode counts warns [ReportMissingSections missing_sections])
         (io_return E_REPORT_SECTIONS)
     else
       io_then (summarize mode counts warns []) (io_return PASS))))"

text \<open>Section 4, the findings and the severity thresholds.\<close>

definition gate_findings :: "env \<Rightarrow> json \<Rightarrow> string \<Rightarrow> string \<Rightarrow> int io" where
  "gate_findings E rg mode out_dir =
     io_bind (read_json E (path_join out_dir ''extracted_findings.json'')) (\<lambda>findings.
     case findings of
       JList fs \<Rightarrow>
         io_bind (io_lift (count_severities fs)) (\<lambda>counts.
         io_bind (io_lift (py_get rg ''fail_on_critical'' (JBool True))) (\<lambda>foc.
         if truthy foc \<and> dict_get counts ''CRITICAL'' 0 > 0 then
           io_then (summarize mode counts [] [CriticalPresent]) (io_return E_CRITICAL_PRESENT)
         else
           io_bind (io_lift (py_get rg ''max_high_findings'' (JInt 999999))) (\<lambda>mh.
           io_bind (io_lift (py_int mh)) (\<lambda>max_high.
           if dict_get counts ''HIGH'' 0 > max_high then
             io_then (summarize mode counts [] [HighExceed (dict_get counts ''HIGH'' 0) max_high])
               (io_return E_HIGH_THRESHOLD)
           else
             io_bind (io_lift (py_get rg ''max_medium_findings'' (JInt 999999))) (\<lambda>mm.
             io_bind (io_lift (py_int mm)) (\<lambda>max_med.
             let warns = (if dict_get counts ''MEDIUM'' 0 > max_med
                          then [MediumExceed (dict_get counts ''MEDIUM'' 0) max_med] else [])
             in gate_report E rg mode out_dir counts warns))))))
     | _ \<Rightarrow>
         io_then (summarize mode zero_counts [] [FindingsNotList]) (io_return E_REQUIRED_OUTPUTS))"

text \<open>
  Section 3, the manifest signer. \<^verbatim>\<open>s.lower()\<close> raises on an allowed signer that is
  no string.
\<close>

fun lower_all :: "json list \<Rightarrow> py_exc + string list" where
  "lower_all [] = Inr []"
| "lower_all (x # xs) =
     (case x of
        JStr s \<Rightarrow> (case lower_all xs of Inl e \<Rightarrow> Inl e | Inr ys \<Rightarrow> Inr (py_lower s # ys))
      | _ \<Rightarrow> Inl AttributeError)"

definition gate_manifest :: "env \<Rightarrow> json \<Rightarrow> string \<Rightarrow> string \<Rightarrow> int io" where
  "gate_manifest E rg mode out_dir =
     io_bind (read_text E (path_join out_dir ''manifest_signer.txt'')) (\<lambda>txt.
     let signer = py_strip txt in
     io_bind (io_lift (py_get rg ''require_signed_manifest'' (JBool True))) (\<lambda>req.
     if truthy req then
       io_bind (io_lift (py_get rg ''allowed_signers'' (JList [JStr ''minisign'', JStr ''openssl'']))) (\<lambda>a.
       io_bind (io_lift (py_iter (py_or a (JList [])))) (\<lambda>signers.
       io_bind (io_lift (lower_all signers)) (\<lambda>allowed.
       if py_lower signer \<notin> set allowed then
         io_then (summarize mode zero_counts []
                    [SignerNotAllowed signer (sorted_list_of_set (set allowed))])
           (io_return E_MANIFEST_SIGN)
       else
         io_bind (path_exists E (path_join out_dir ''manifest.sig'')) (\<lambda>ex.
         if \<not> ex then
           io_then (summarize mode zero_counts [] [ManifestSigMissing]) (io_return E_MANIFEST_SIGN)
         else gate_findings E rg mode out_dir))))
     else gate_findings E rg mode out_dir))"

text \<open>Section 2, the two policy reports.\<close>

definition gate_policy_reports :: "env \<Rightarrow> json \<Rightarrow> string \<Rightarrow> string \<Rightarrow> int io" where
  "gate_policy_reports E rg mode out_dir =
     io_bind (read_json E (path_join out_dir ''policy_report.json'')) (\<lambda>pre.
     io_bind (read_json E (path_join out_dir ''policy_report_post.json'')) (\<lambda>post.
     io_bind (io_lift (py_get pre ''status'' JNull)) (\<lambda>pre_status.
     if pre_status \<noteq> JStr ''PASS'' then
       io_bind (io_lift (py_get pre ''hard_fail_hits'' JNull)) (\<lambda>hits.
       io_then (summarize mode zero_counts [] [PolicyReportStatus pre_status hits])
         (io_return E_POLICY_FAIL))
     else
       io_bind (io_lift (py_get post ''status'' JNull)) (\<lambda>post_status.
       if post_status \<noteq> JStr ''PASS'' then
         io_bind (io_lift (py_get post ''hard_fail_hits'' JNull)) (\<lambda>hits.
         io_then (summarize mode zero_counts [] [PolicyReportPostStatus post_status hits])
           (io_return E_SECRETS_IN_OUTPUTS))
       else gate_manifest E rg mode out_dir))))"

text \<open>The head of the function and section 1, the required files.\<close>

definition gate_one_mode :: "env \<Rightarrow> json \<Rightarrow> string \<Rightarrow> string \<Rightarrow> int io" where
  "gate_one_mode E policy mode outputs_base =
     io_bind (io_lift (py_get policy ''release_gate'' (JDict []))) (\<lambda>g.
     let rg = py_or g (JDict []) in
     io_bind (io_lift (py_get rg ''enabled'' (JBool True))) (\<lambda>enabled.
     if \<not> truthy enabled then
       io_then (io_print (DisabledLine mode)) (io_return PASS)
     else
       let out_dir = path_join outputs_base mode in
       io_bind (io_lift (py_get rg ''required_files'' (JList []))) (\<lambda>r.
       io_bind (io_lift (py_iter (py_or r (JList [])))) (\<lambda>required_files.
       io_bind (missing_files E out_dir required_files) (\<lambda>missing.
       if missing \<noteq> [] then
         io_then (summarize mode zero_counts [] [MissingRequiredOutputs missing])
           (io_return E_REQUIRED_OUTPUTS)
       else gate_policy_reports E rg mode out_dir)))))"

text \<open>
  \<^verbatim>\<open>main\<close>, after the arguments are parsed. The loop over the modes is
  \<open>run_modes\<close>; \<open>Inr code\<close> is \<^verbatim>\<open>SystemExit(code)\<close>, and \<open>Inl e\<close> an exception
  that nothing catches.
\<close>

record args =
  arg_mode :: string
  arg_policy :: string
  arg_outputs_dir :: string

fun run_modes :: "env \<Rightarrow> json \<Rightarrow> string \<Rightarrow> string list \<Rightarrow> int io" where
  "run_modes E policy outputs_base [] = io_then (io_print OverallPassLine) (io_return PASS)"
| "run_modes E policy outputs_base (m # ms) =
     io_bind (gate_one_mode E policy m outputs_base) (\<lambda>code.
     if code \<noteq> PASS then io_then (io_print (ModeFailLine m code)) (io_return code)
     else run_modes E policy outputs_base ms)"

definition main :: "env \<Rightarrow> args \<Rightarrow> int io" where
  "main E a =
     io_bind (load_policy E (arg_policy a)) (\<lambda>policy.
     let outputs_base = arg_outputs_dir a;
         modes = (if arg_mode a = ''both'' then [''tokyo'', ''ny''] else [arg_mode a])
     in run_modes E policy outputs_base modes)"

text \<open>The lines a trace prints.\<close>

definition printed :: "event list \<Rightarrow> line list" where
  "printed t = concat (map (\<lambda>e. case e of Print l \<Rightarrow> [l] | _ \<Rightarrow> []) t)"

subsection \<open>Notions used in the statements\<close>

definition is_dict :: "json \<Rightarrow> bool" where
  "is_dict v = (case v of JDict d \<Rightarrow> True | _ \<Rightarrow> False)"

definition normalized :: "string \<Rightarrow> string" where
  "normalized s = py_strip (py_upper s)"

definition category :: "json \<Rightarrow> string" where
  "category f =
     (case f of
        JDict d \<Rightarrow>
          (let s = normalized (py_str (dict_get d ''severity'' (JStr ''UNSPECIFIED'')))
           in if s \<in> set SEV_ORDER then s else ''UNSPECIFIED'')
      | _ \<Rightarrow> ''UNSPECIFIED'')"

definition tally :: "json list \<Rightarrow> string \<Rightarrow> int" where
  "tally fs k = int (length (filter (\<lambda>f. category f = k) fs))"

definition malformed_record :: "json \<Rightarrow> bool" where
  "malformed_record f =
     (case f of
        JDict d \<Rightarrow> (case map_of d ''severity'' of None \<Rightarrow> True | Some (JStr s) \<Rightarrow> False | Some _ \<Rightarrow> True)
      | _ \<Rightarrow> False)"


text \<open>
  What it means for the validators before the findings to pass, in the words of the
  validator table: every required file exists; a policy report is a readable file that
  parses to a record whose status is \<^verbatim>\<open>PASS\<close>; the signer file is readable and,
  where signing is required, its stripped text is an allowed signer, case-insensitively,
  and \<^verbatim>\<open>manifest.sig\<close> exists.
\<close>

definition required_files_present :: "env \<Rightarrow> (string \<times> json) list \<Rightarrow> string \<Rightarrow> bool" where
  "required_files_present E rg out_dir =
     (case py_iter (py_or (dict_get rg ''required_files'' (JList [])) (JList [])) of
        Inr xs \<Rightarrow>
          list_all (\<lambda>x. case x of JStr rel \<Rightarrow> files E (path_join out_dir rel) \<noteq> None | _ \<Rightarrow> False) xs
      | Inl e \<Rightarrow> False)"

definition report_passes :: "env \<Rightarrow> string \<Rightarrow> bool" where
  "report_passes E p =
     (case files E p of
        Some (File t) \<Rightarrow>
          (case json_loads E t of
             Some (JDict d) \<Rightarrow> dict_get d ''status'' JNull = JStr ''PASS''
           | _ \<Rightarrow> False)
      | _ \<Rightarrow> False)"

definition manifest_passes :: "env \<Rightarrow> (string \<times> json) list \<Rightarrow> string \<Rightarrow> bool" where
  "manifest_passes E rg out_dir =
     (case files E (path_join out_dir ''manifest_signer.txt'') of
        Some (File t) \<Rightarrow>
          (if truthy (dict_get rg ''require_signed_manifest'' (JBool True)) then
             (case py_iter (py_or (dict_get rg ''allowed_signers'' (JList [JStr ''minisign'', JStr ''openssl''])) (JList [])) of
                Inr xs \<Rightarrow>
                  (case lower_all xs of
                     Inr allowed \<Rightarrow>
                       py_lower (py_strip t) \<in> set allowed
                       \<and> files E (path_join out_dir ''manifest.sig'') \<noteq> None
                   | Inl e \<Rightarrow> False)
              | Inl e \<Rightarrow> False)
           else True)
      | _ \<Rightarrow> False)"

text \<open>The release-gate section of a policy, as \<^verbatim>\<open>gate_one_mode\<close> takes it.\<close>

definition release_gate_of :: "json \<Rightarrow> (string \<times> json) list option" where
  "release_gate_of policy =
     (case policy of
        JDict p \<Rightarrow>
          (case py_or (dict_get p ''release_gate'' (JDict [])) (JDict []) of
             JDict rg \<Rightarrow> Some rg
           | _ \<Rightarrow> None)
      | _ \<Rightarrow> None)"

text \<open>The policy that has the release-gate section \<open>rg\<close> and nothing else.\<close>

definition policy_with :: "(string \<times> json) list \<Rightarrow> json" where
  "policy_with rg = JDict [(''release_gate'', JDict rg)]"

definition enabled :: "(string \<times> json) list \<Rightarrow> bool" where
  "enabled rg = truthy (dict_get rg ''enabled'' (JBool True))"

text \<open>
  The validators from the findings on: the findings file parses to a list that the
  aggregator counts; neither the critical gate nor the high threshold fails; every
  required section occurs in the report.
\<close>

definition findings_counts :: "env \<Rightarrow> string \<Rightarrow> counts option" where
  "findings_counts E out_dir =
     (case files E (path_join out_dir ''extracted_findings.json'') of
        Some (File t) \<Rightarrow>
          (case json_loads E t of
             Some (JList fs) \<Rightarrow> (case count_severities fs of Inr counts \<Rightarrow> Some counts | Inl e \<Rightarrow> None)
           | _ \<Rightarrow> None)
      | _ \<Rightarrow> None)"

definition critical_high_pass :: "(string \<times> json) list \<Rightarrow> counts \<Rightarrow> bool" where
  "critical_high_pass rg counts =
     ((if truthy (dict_get rg ''fail_on_critical'' (JBool True)) then dict_get counts ''CRITICAL'' 0 \<le> 0 else True)
      \<and> (case py_int (dict_get rg ''max_high_findings'' (JInt 999999)) of
            Inr h \<Rightarrow> dict_get counts ''HIGH'' 0 \<le> h
          | Inl e \<Rightarrow> False))"

definition sections_present :: "env \<Rightarrow> (string \<times> json) list \<Rightarrow> string \<Rightarrow> bool" where
  "sections_present E rg out_dir =
     (case files E (path_join out_dir ''consolidated_security_report.md'') of
        Some (File md) \<Rightarrow>
          report_missing_sections (py_or (dict_get rg ''required_report_sections'' (JList [])) (JList [])) md = Inr []
      | _ \<Rightarrow> False)"

text \<open>
  A run of the gate of one mode is in order when it raises, or prints exactly one
  summary, that of the mode, with a row for each of the six severities, and lists a
  failure exactly when its code is not \<^verbatim>\<open>PASS\<close>.
\<close>

definition one_summary :: "string \<Rightarrow> event list \<Rightarrow> int \<Rightarrow> bool" where
  "one_summary mode t c =
     (\<exists>counts warns fails.
        printed t = summary_lines mode counts warns fails
        \<and> map fst counts = SEV_ORDER \<and> ((fails = []) = (c = PASS)))"

definition summary_or_raise :: "string \<Rightarrow> int io \<Rightarrow> bool" where
  "summary_or_raise mode m = (case snd m of Inl e \<Rightarrow> True | Inr c \<Rightarrow> one_summary mode (fst m) c)"

subsection \<open>A sample run\<close>

text \<open>
  An outputs directory in which the mode \<^verbatim>\<open>tokyo\<close> has every artifact and five
  findings of severity medium, and the mode \<^verbatim>\<open>ny\<close> has nothing; a parser that knows
  the texts of these files.
\<close>

definition ex_loads :: "string \<Rightarrow> json option" where
  "ex_loads = map_of
     [(''{status: PASS}'', JDict [(''status'', JStr ''PASS'')]),
      (''{status: FAIL}'', JDict [(''status'', JStr ''FAIL''), (''hard_fail_hits'', JInt 2)]),
      (''[5 x medium]'', JList (replicate 5 (JDict [(''severity'', JStr ''medium'')]))),
      (''{findings: none}'', JDict [(''findings'', JNull)]),
      (''{}'', JDict [])]"

definition ex_files :: "string \<Rightarrow> node option" where
  "ex_files = map_of
     [(''policy.yml'', File ''{}''),
      (''outputs/tokyo/policy_report.json'', File ''{status: PASS}''),
      (''outputs/tokyo/policy_report_post.json'', File ''{status: PASS}''),
      (''outputs/tokyo/manifest_signer.txt'', File ''minisign''),
      (''outputs/tokyo/manifest.sig'', File ''sig''),
      (''outputs/tokyo/extracted_findings.json'', File ''[5 x medium]''),
      (''outputs/tokyo/consolidated_security_report.md'', File ''# Summary'')]"

definition ex_env :: env where
  "ex_env = \<lparr>files = ex_files, json_loads = ex_loads, yaml_safe_load = None\<rparr>"

text \<open>The sample run with one file replaced, or removed.\<close>

definition with_file :: "env \<Rightarrow> string \<Rightarrow> node option \<Rightarrow> env" where
  "with_file E p n = E\<lparr>files := (files E)(p := n)\<rparr>"

text \<open>
  The sample run with the mode \<^verbatim>\<open>ny\<close> configured as \<^verbatim>\<open>tokyo\<close> is: a path under
  \<^verbatim>\<open>outputs/ny/\<close> holds what the same path under \<^verbatim>\<open>outputs/tokyo/\<close> holds.
  And the arguments of a run of both modes.
\<close>

definition ex_env_both :: env where
  "ex_env_both =
     ex_env\<lparr>files := (\<lambda>p. if take 11 p = ''outputs/ny/''
                          then ex_files (''outputs/tokyo/'' @ drop 11 p) else ex_files p)\<rparr>"

definition ex_args :: args where
  "ex_args = \<lparr>arg_mode = ''both'', arg_policy = ''policy.yml'', arg_outputs_dir = ''outputs''\<rparr>"

section \<open>Properties\<close>

subsection \<open>The severity aggregator\<close>

lemma distinct_SEV_ORDER: "distinct SEV_ORDER"
  by (simp add: SEV_ORDER_def)

lemma category_in: "category f \<in> set SEV_ORDER"
  by (cases f) (simp_all add: category_def Let_def SEV_ORDER_def)

lemma alist_rebuild: "distinct (map fst c) \<Longrightarrow> map (\<lambda>k. (k, dict_get c k d)) (map fst c) = c"
proof (induction c)
  case Nil
  then show ?case by simp
next
  case (Cons a c)
  obtain k v where a: "a = (k, v)" by (cases a)
  from Cons.prems a have nk: "k \<notin> fst ` set c" and dc: "distinct (map fst c)" by auto
  have "map (\<lambda>k'. (k', dict_get ((k, v) # c) k' d)) (map fst c) = map (\<lambda>k'. (k', dict_get c k' d)) (map fst c)"
    using nk by (intro map_cong) (auto simp: dict_get_def)
  with Cons.IH [OF dc] a show ?case by (simp add: dict_get_def)
qed

lemma dict_get_update:
  "dict_get (AList.update k v c) k' d = (if k' = k then v else dict_get c k' d)"
  by (simp add: dict_get_def update_conv')

lemma count_loop_closed:
  "map fst c = SEV_ORDER \<Longrightarrow> \<forall>f\<in>set fs. is_dict f \<Longrightarrow>
   count_loop c fs = Inr (map (\<lambda>k. (k, dict_get c k 0 + tally fs k)) SEV_ORDER)"
proof (induction fs arbitrary: c)
  case Nil
  have "distinct (map fst c)" using Nil(1) distinct_SEV_ORDER by simp
  from alist_rebuild [OF this, of 0] Nil(1) show ?case by (simp add: tally_def)
next
  case (Cons f fs)
  from Cons.prems(2) obtain d where f: "f = JDict d" by (cases f) (auto simp: is_dict_def)
  let ?k = "category f"
  have kin: "?k \<in> set (map fst c)" using category_in Cons.prems(1) by simp
  then obtain n where n: "map_of c ?k = Some n"
    by (metis (no_types, lifting) domD dom_map_of_conv_image_fst list.set_map)
  let ?c' = "AList.update ?k (n + 1) c"
  have keys: "map fst ?c' = SEV_ORDER" using kin Cons.prems(1) by (simp add: update_keys)
  have step: "count_loop c (f # fs) = count_loop ?c' fs"
    using n kin Cons.prems(1) unfolding f
    by (auto simp: py_get_def category_def normalized_def Let_def)
  have "count_loop ?c' fs = Inr (map (\<lambda>k. (k, dict_get ?c' k 0 + tally fs k)) SEV_ORDER)"
    using Cons.IH [OF keys] Cons.prems(2) by simp
  moreover have "\<And>k. dict_get ?c' k 0 + tally fs k = dict_get c k 0 + tally (f # fs) k"
    using n by (auto simp: dict_get_def update_conv' tally_def)
  ultimately show ?case using step by simp
qed

lemma count_severities_closed:
  "\<forall>f\<in>set fs. is_dict f \<Longrightarrow> count_severities fs = Inr (map (\<lambda>k. (k, tally fs k)) SEV_ORDER)"
proof -
  assume a: "\<forall>f\<in>set fs. is_dict f"
  have k: "map fst zero_counts = SEV_ORDER" by (simp add: zero_counts_def comp_def)
  have z: "\<And>k. dict_get zero_counts k 0 = 0"
    by (simp add: dict_get_def zero_counts_def map_of_map_restrict restrict_map_def)
  show ?thesis unfolding count_severities_def using count_loop_closed [OF k a] by (simp add: z)
qed

lemma count_loop_not_dict:
  "\<not> (\<forall>f\<in>set fs. is_dict f) \<Longrightarrow> map fst c = SEV_ORDER \<Longrightarrow> count_loop c fs = Inl AttributeError"
proof (induction fs arbitrary: c)
  case Nil
  then show ?case by simp
next
  case (Cons f fs)
  show ?case
  proof (cases "is_dict f")
    case False
    then show ?thesis by (cases f) (simp_all add: py_get_def is_dict_def)
  next
    case True
    then obtain d where f: "f = JDict d" by (cases f) (auto simp: is_dict_def)
    let ?k = "category f"
    have kin: "?k \<in> set (map fst c)" using category_in Cons.prems(2) by simp
    then obtain n where n: "map_of c ?k = Some n"
      by (metis (no_types, lifting) domD dom_map_of_conv_image_fst list.set_map)
    let ?c' = "AList.update ?k (n + 1) c"
    have keys: "map fst ?c' = SEV_ORDER" using kin Cons.prems(2) by (simp add: update_keys)
    have step: "count_loop c (f # fs) = count_loop ?c' fs"
      using n kin Cons.prems(2) unfolding f
      by (auto simp: py_get_def category_def normalized_def Let_def)
    from True Cons.prems(1) have "\<not> (\<forall>f\<in>set fs. is_dict f)" by simp
    from Cons.IH [OF this keys] step show ?thesis by simp
  qed
qed

lemma tally_sum: "(\<Sum>k\<leftarrow>SEV_ORDER. tally fs k) = int (length fs)"
proof (induction fs)
  case Nil
  then show ?case by (simp add: tally_def)
next
  case (Cons f fs)
  have "(\<Sum>k\<leftarrow>SEV_ORDER. tally (f # fs) k) = (\<Sum>k\<leftarrow>SEV_ORDER. tally fs k) + 1"
    using category_in [of f] by (auto simp: SEV_ORDER_def tally_def)
  with Cons show ?case by simp
qed

lemma upper_char_not_space: "is_space (upper_char c) = is_space c"
  by (auto simp: upper_char_def is_lower_char_def is_space_def Let_def)

lemma py_strip_head: "\<not> is_space c \<Longrightarrow> py_strip (c # r) = c # rev (dropWhile is_space (rev r))"
  by (simp add: py_strip_def dropWhile_append3)

lemma hd_normalize:
  assumes "s \<noteq> []" "\<not> is_space (hd s)"
  shows "normalized s \<noteq> [] \<and> hd (normalized s) = upper_char (hd s)"
proof -
  from assms obtain c r where s: "s = c # r" by (cases s) auto
  with assms have "\<not> is_space (upper_char c)" by (simp add: upper_char_not_space)
  then show ?thesis unfolding s normalized_def py_upper_def by (simp add: py_strip_head)
qed

lemma nat_digits_hd: "nat_digits n \<noteq> [] \<and> (\<exists>d<10. hd (nat_digits n) = digit_char d)"
proof (induction n rule: nat_digits.induct)
  case (1 n)
  show ?case
  proof (cases "n < 10")
    case True
    then show ?thesis by (subst nat_digits.simps, subst nat_digits.simps) auto
  next
    case False
    with 1 show ?thesis by (subst nat_digits.simps, subst nat_digits.simps) auto
  qed
qed

lemma digit_char_props:
  assumes "d < 10"
  shows "\<not> is_space (digit_char d)" "upper_char (digit_char d) = digit_char d"
    "48 \<le> (of_char (digit_char d) :: nat)" "(of_char (digit_char d) :: nat) \<le> 57"
  using assms by (auto simp: digit_char_def is_space_def upper_char_def is_lower_char_def Let_def)

lemma not_category_by_hd:
  assumes "s \<noteq> []" "\<not> is_space (hd s)" "(of_char (upper_char (hd s)) :: nat) \<notin> {67, 72, 77, 76, 73, 85}"
  shows "normalized s \<notin> set SEV_ORDER"
proof
  assume "normalized s \<in> set SEV_ORDER"
  then have "(of_char (hd (normalized s)) :: nat) \<in> {67, 72, 77, 76, 73, 85}"
    by (auto simp: SEV_ORDER_def)
  with hd_normalize [OF assms(1,2)] assms(3) show False by simp
qed

lemma int_str_hd:
  "int_str i \<noteq> [] \<and> \<not> is_space (hd (int_str i)) \<and> (of_char (upper_char (hd (int_str i))) :: nat) \<notin> {67, 72, 77, 76, 73, 85}"
proof (cases "i < 0")
  case True
  then show ?thesis by (simp add: int_str_def is_space_def upper_char_def is_lower_char_def)
next
  case False
  obtain d where d: "d < 10" "hd (nat_digits (nat i)) = digit_char d" and ne: "nat_digits (nat i) \<noteq> []"
    using nat_digits_hd [of "nat i"] by auto
  from digit_char_props [OF d(1)] d(2) ne False show ?thesis
    by (auto simp: int_str_def)
qed

lemma normalize_repr_not_category:
  assumes "\<And>s. v \<noteq> JStr s"
  shows "normalized (py_repr v) \<notin> set SEV_ORDER"
proof (cases v)
  case JNull
  then show ?thesis by (intro not_category_by_hd) (simp_all add: is_space_def upper_char_def is_lower_char_def)
next
  case (JBool b)
  then show ?thesis by (intro not_category_by_hd) (simp_all add: is_space_def upper_char_def is_lower_char_def)
next
  case (JInt i)
  then show ?thesis using int_str_hd [of i] by (intro not_category_by_hd) simp_all
next
  case (JStr s)
  with assms show ?thesis by blast
next
  case (JList xs)
  then show ?thesis by (intro not_category_by_hd) (simp_all add: is_space_def upper_char_def is_lower_char_def)
next
  case (JDict kvs)
  then show ?thesis by (intro not_category_by_hd) (simp_all add: is_space_def upper_char_def is_lower_char_def)
qed

lemma normalized_UNSPECIFIED: "normalized ''UNSPECIFIED'' = ''UNSPECIFIED''"
  by (simp add: normalized_def py_strip_def py_upper_def upper_char_def is_lower_char_def is_space_def)

lemma malformed_category: "malformed_record f \<Longrightarrow> category f = ''UNSPECIFIED''"
proof -
  assume m: "malformed_record f"
  then obtain d where f: "f = JDict d" by (cases f) (auto simp: malformed_record_def)
  show ?thesis
  proof (cases "map_of d ''severity''")
    case None
    then show ?thesis unfolding f
      by (simp add: category_def dict_get_def py_str_def normalized_UNSPECIFIED)
  next
    case (Some v)
    with m f have nv: "\<And>s. v \<noteq> JStr s" by (auto simp: malformed_record_def)
    then have "py_str v = py_repr v" by (cases v) (auto simp: py_str_def)
    with normalize_repr_not_category [OF nv] Some show ?thesis unfolding f
      by (simp add: category_def dict_get_def Let_def)
  qed
qed

text \<open>
  C3. For every list of finding records, \<^verbatim>\<open>count_severities\<close> returns a mapping whose
  keys are exactly the six of \<^verbatim>\<open>SEV_ORDER\<close>, each once; every count is non-negative
  and the six counts add up to the length of the list.
\<close>

theorem count_severities_six_keys:
  assumes "\<forall>f\<in>set findings. is_dict f"
  shows "\<exists>counts. count_severities findings = Inr counts
           \<and> map fst counts = SEV_ORDER
           \<and> (\<forall>n\<in>set (map snd counts). 0 \<le> n)
           \<and> sum_list (map snd counts) = int (length findings)"
proof -
  let ?c = "map (\<lambda>k. (k, tally findings k)) SEV_ORDER"
  have "count_severities findings = Inr ?c" by (rule count_severities_closed [OF assms])
  moreover have "map fst ?c = SEV_ORDER" by (simp add: comp_def)
  moreover have "\<forall>n\<in>set (map snd ?c). 0 \<le> n" by (simp add: tally_def)
  moreover have "sum_list (map snd ?c) = int (length findings)"
    using tally_sum [of findings] by (simp add: comp_def)
  ultimately show ?thesis by blast
qed

theorem count_severities_six_keys_witness:
  "list_all is_dict [JDict [(''severity'', JStr '' high '')], JDict [], JDict [(''severity'', JStr ''WOBBLE'')]]
   \<and> (\<exists>counts. count_severities [JDict [(''severity'', JStr '' high '')], JDict [], JDict [(''severity'', JStr ''WOBBLE'')]] = Inr counts
           \<and> map fst counts = SEV_ORDER
           \<and> (\<forall>n\<in>set (map snd counts). 0 \<le> n)
           \<and> sum_list (map snd counts) = 3)"
proof -
  have h: "\<forall>f\<in>set [JDict [(''severity'', JStr '' high '')], JDict [], JDict [(''severity'', JStr ''WOBBLE'')]]. is_dict f"
    by (simp add: is_dict_def)
  from count_severities_six_keys [OF h] h show ?thesis by simp
qed

lemma tally_filter_malformed:
  "tally fs k = tally (filter (\<lambda>f. \<not> malformed_record f) fs) k
       + (if k = ''UNSPECIFIED'' then int (length (filter malformed_record fs)) else 0)"
proof (induction fs)
  case Nil
  then show ?case by (simp add: tally_def)
next
  case (Cons f fs)
  then show ?case using malformed_category [of f] by (auto simp: tally_def)
qed

lemma update_tally_list:
  "k \<in> set ks \<Longrightarrow> distinct ks \<Longrightarrow>
   AList.update k (g k + (n::int)) (map (\<lambda>k'. (k', g k')) ks) = map (\<lambda>k'. (k', g k' + (if k' = k then n else 0))) ks"
  by (induction ks) auto

lemma dict_get_tally_list:
  "k \<in> set ks \<Longrightarrow> dict_get (map (\<lambda>k'. (k', g k')) ks) k d = g k"
  by (induction ks) (auto simp: dict_get_def)

text \<open>
  C5, as stated, fails: an entry that is no record makes \<^verbatim>\<open>f.get\<close> raise.
\<close>

theorem count_severities_non_record_counterexample:
  "count_severities [JDict [(''severity'', JStr ''HIGH'')], JStr ''HIGH''] = Inl AttributeError"
  by (simp add: count_severities_def zero_counts_def SEV_ORDER_def py_get_def dict_get_def py_str_def
      py_strip_def py_upper_def upper_char_def is_lower_char_def is_space_def)

text \<open>
  C5, amended. For every list of records, \<^verbatim>\<open>count_severities\<close> returns, and the
  records with no severity field or with a severity that is no string are counted under
  \<^verbatim>\<open>UNSPECIFIED\<close>, each once, and under no other key: the result is the result for
  the other records, with their number added to \<^verbatim>\<open>UNSPECIFIED\<close>.
\<close>

theorem count_severities_malformed_records:
  assumes "\<forall>f\<in>set findings. is_dict f"
  shows "\<exists>c c0. count_severities findings = Inr c
           \<and> count_severities (filter (\<lambda>f. \<not> malformed_record f) findings) = Inr c0
           \<and> c = AList.update ''UNSPECIFIED''
                   (dict_get c0 ''UNSPECIFIED'' 0 + int (length (filter malformed_record findings))) c0"
proof -
  let ?wf = "filter (\<lambda>f. \<not> malformed_record f) findings"
  let ?c = "map (\<lambda>k. (k, tally findings k)) SEV_ORDER"
  let ?base = "map (\<lambda>k. (k, tally ?wf k)) SEV_ORDER"
  let ?m = "int (length (filter malformed_record findings))"
  have u: "''UNSPECIFIED'' \<in> set SEV_ORDER" by (simp add: SEV_ORDER_def)
  have wf: "\<forall>f\<in>set ?wf. is_dict f" using assms by simp
  have 1: "count_severities findings = Inr ?c" by (rule count_severities_closed [OF assms])
  have 2: "count_severities ?wf = Inr ?base" by (rule count_severities_closed [OF wf])
  have "AList.update ''UNSPECIFIED'' (dict_get ?base ''UNSPECIFIED'' 0 + ?m) ?base
        = map (\<lambda>k'. (k', tally ?wf k' + (if k' = ''UNSPECIFIED'' then ?m else 0))) SEV_ORDER"
    using update_tally_list [OF u distinct_SEV_ORDER, of "tally ?wf" ?m]
    by (simp add: dict_get_tally_list [OF u])
  also have "\<dots> = ?c" using tally_filter_malformed [of findings] by simp
  finally have 3: "?c = AList.update ''UNSPECIFIED'' (dict_get ?base ''UNSPECIFIED'' 0 + ?m) ?base" by simp
  from 1 2 3 show ?thesis by blast
qed

theorem count_severities_malformed_records_witness:
  "list_all is_dict [JDict [], JDict [(''severity'', JInt 3)], JDict [(''severity'', JStr ''low'')], JDict [(''severity'', JNull)]]
   \<and> count_severities [JDict [], JDict [(''severity'', JInt 3)], JDict [(''severity'', JStr ''low'')], JDict [(''severity'', JNull)]]
       = Inr [(''CRITICAL'', 0), (''HIGH'', 0), (''MEDIUM'', 0), (''LOW'', 1), (''INFO'', 0), (''UNSPECIFIED'', 3)]"
proof -
  let ?fs = "[JDict [], JDict [(''severity'', JInt 3)], JDict [(''severity'', JStr ''low'')], JDict [(''severity'', JNull)]]"
  have h: "\<forall>f\<in>set ?fs. is_dict f" by (simp add: is_dict_def)
  have wf: "filter (\<lambda>f. \<not> malformed_record f) ?fs = [JDict [(''severity'', JStr ''low'')]]"
    by (simp add: malformed_record_def)
  have m: "filter malformed_record ?fs = [JDict [], JDict [(''severity'', JInt 3)], JDict [(''severity'', JNull)]]"
    by (simp add: malformed_record_def)
  have c0: "count_severities [JDict [(''severity'', JStr ''low'')]]
      = Inr [(''CRITICAL'', 0), (''HIGH'', 0), (''MEDIUM'', 0), (''LOW'', 1), (''INFO'', 0), (''UNSPECIFIED'', 0)]"
    by code_simp
  from count_severities_malformed_records [OF h] show ?thesis
    unfolding wf m c0 by (auto simp: is_dict_def dict_get_def)
qed











subsection \<open>The gate of one mode\<close>

lemma io_bind_Inl: "io_bind (t, Inl e) k = (t, Inl e)"
  by (simp add: io_bind_def)

lemma io_bind_Inr: "io_bind (t, Inr x) k = (t @ fst (k x), snd (k x))"
  by (simp add: io_bind_def)

lemma io_bind_lift_Inr: "io_bind (io_lift (Inr x)) k = k x"
  by (simp add: io_bind_def io_lift_def)

lemma io_bind_lift_Inl: "io_bind (io_lift (Inl e)) k = ([], Inl e)"
  by (simp add: io_bind_def io_lift_def)

lemma io_bind_return: "io_bind (io_return x) k = k x"
  by (simp add: io_bind_def io_return_def)

lemma summarize_return:
  "io_then (summarize mode counts warns fails) (io_return c) = (map Print (summary_lines mode counts warns fails), Inr c)"
  by (simp add: io_then_def io_bind_def summarize_def io_return_def)

lemma print_return: "io_then (io_print l) (io_return c) = ([Print l], Inr c)"
  by (simp add: io_then_def io_bind_def io_print_def io_return_def)

lemma py_get_dict: "py_get (JDict d) k dflt = Inr (dict_get d k dflt)"
  by (simp add: py_get_def)

lemmas io_simps = io_bind_Inl io_bind_Inr io_bind_lift_Inr io_bind_lift_Inl io_bind_return
  summarize_return print_return py_get_dict Let_def

lemma release_gate_ofD:
  "release_gate_of policy = Some rg \<Longrightarrow>
   \<exists>p. policy = JDict p \<and> py_or (dict_get p ''release_gate'' (JDict [])) (JDict []) = JDict rg"
  by (auto simp: release_gate_of_def split: json.splits)

lemma gate_one_mode_disabled:
  assumes "release_gate_of policy = Some rg" "\<not> enabled rg"
  shows "gate_one_mode E policy mode base = ([Print (DisabledLine mode)], Inr 0)"
proof -
  from release_gate_ofD [OF assms(1)] obtain p where
    p: "policy = JDict p" "py_or (dict_get p ''release_gate'' (JDict [])) (JDict []) = JDict rg" by blast
  show ?thesis using assms(2) unfolding gate_one_mode_def p(1)
    by (simp add: io_simps p(2) enabled_def PASS_def)
qed

lemma gate_one_mode_enabled:
  assumes "release_gate_of policy = Some rg" "enabled rg"
  shows "gate_one_mode E policy mode base =
     io_bind (io_lift (py_iter (py_or (dict_get rg ''required_files'' (JList [])) (JList [])))) (\<lambda>required_files.
     io_bind (missing_files E (path_join base mode) required_files) (\<lambda>missing.
       if missing \<noteq> [] then
         (map Print (summary_lines mode zero_counts [] [MissingRequiredOutputs missing]), Inr 14)
       else gate_policy_reports E (JDict rg) mode (path_join base mode)))"
proof -
  from release_gate_ofD [OF assms(1)] obtain p where
    p: "policy = JDict p" "py_or (dict_get p ''release_gate'' (JDict [])) (JDict []) = JDict rg" by blast
  show ?thesis using assms(2) unfolding gate_one_mode_def p(1)
    by (simp add: io_simps p(2) enabled_def E_REQUIRED_OUTPUTS_def cong: if_cong)
qed

text \<open>The existence tests of section 1 and the list they leave.\<close>

lemma missing_files_strs:
  "missing_files E out (map JStr paths) =
     (map (\<lambda>rel. Exists (path_join out rel)) paths,
      Inr (filter (\<lambda>rel. files E (path_join out rel) = None) paths))"
  by (induction paths) (simp_all add: io_return_def io_bind_def file_exists_def path_exists_def)

lemma missing_files_present:
  "list_all (\<lambda>x. case x of JStr rel \<Rightarrow> files E (path_join out rel) \<noteq> None | _ \<Rightarrow> False) xs \<Longrightarrow>
   \<exists>paths. xs = map JStr paths \<and> missing_files E out xs = (map (\<lambda>rel. Exists (path_join out rel)) paths, Inr [])"
proof (induction xs)
  case Nil
  then show ?case by (simp add: io_return_def)
next
  case (Cons x xs)
  then obtain rel where x: "x = JStr rel" "files E (path_join out rel) \<noteq> None" by (cases x) auto
  from Cons obtain paths where ps: "xs = map JStr paths"
     "missing_files E out xs = (map (\<lambda>rel. Exists (path_join out rel)) paths, Inr [])" by auto
  have a: "x # xs = map JStr (rel # paths)" using x ps by simp
  have b: "missing_files E out (x # xs) = (map (\<lambda>rel. Exists (path_join out rel)) (rel # paths), Inr [])"
    using x ps by (simp add: io_return_def io_bind_def file_exists_def path_exists_def)
  show ?case by (rule exI [of _ "rel # paths"]) (use a b in blast)
qed

lemma gate_one_mode_files_present:
  assumes "release_gate_of policy = Some rg" "enabled rg" "required_files_present E rg (path_join base mode)"
  shows "\<exists>paths. gate_one_mode E policy mode base =
     io_bind (map (\<lambda>rel. Exists (path_join (path_join base mode) rel)) paths, Inr ())
       (\<lambda>u. gate_policy_reports E (JDict rg) mode (path_join base mode))"
proof -
  obtain xs where xs1: "py_iter (py_or (dict_get rg ''required_files'' (JList [])) (JList [])) = Inr xs"
    using assms(3)
    by (cases "py_iter (py_or (dict_get rg ''required_files'' (JList [])) (JList []))")
       (simp_all add: required_files_present_def)
  from assms(3) have xs2:
    "list_all (\<lambda>x. case x of JStr rel \<Rightarrow> files E (path_join (path_join base mode) rel) \<noteq> None | _ \<Rightarrow> False) xs"
    unfolding required_files_present_def xs1 by (simp del: not_None_eq)
  note xs = xs1 xs2
  from missing_files_present [OF xs(2)] obtain paths where
    ps: "missing_files E (path_join base mode) xs = (map (\<lambda>rel. Exists (path_join (path_join base mode) rel)) paths, Inr [])"
    by blast
  show ?thesis unfolding gate_one_mode_enabled [OF assms(1,2)] xs(1)
    by (rule exI [of _ paths]) (simp add: io_simps ps)
qed


lemma ex_files_simps:
  "files ex_env ''policy.yml'' = Some (File ''{}'')"
  "files ex_env ''outputs/tokyo/policy_report.json'' = Some (File ''{status: PASS}'')"
  "files ex_env ''outputs/tokyo/policy_report_post.json'' = Some (File ''{status: PASS}'')"
  "files ex_env ''outputs/tokyo/manifest_signer.txt'' = Some (File ''minisign'')"
  "files ex_env ''outputs/tokyo/manifest.sig'' = Some (File ''sig'')"
  "files ex_env ''outputs/tokyo/extracted_findings.json'' = Some (File ''[5 x medium]'')"
  "files ex_env ''outputs/tokyo/consolidated_security_report.md'' = Some (File ''# Summary'')"
  "files ex_env ''outputs/tokyo/a.json'' = None"
  "files ex_env ''outputs/ny/policy_report.json'' = None"
  by (simp_all add: ex_env_def ex_files_def)

lemma ex_loads_simps:
  "json_loads ex_env ''{status: PASS}'' = Some (JDict [(''status'', JStr ''PASS'')])"
  "json_loads ex_env ''{status: FAIL}'' = Some (JDict [(''status'', JStr ''FAIL''), (''hard_fail_hits'', JInt 2)])"
  "json_loads ex_env ''[5 x medium]'' = Some (JList (replicate 5 (JDict [(''severity'', JStr ''medium'')])))"
  "json_loads ex_env ''{findings: none}'' = Some (JDict [(''findings'', JNull)])"
  "json_loads ex_env ''{}'' = Some (JDict [])"
  by (simp_all add: ex_env_def ex_loads_def)

lemma policy_with_release_gate: "rg \<noteq> [] \<Longrightarrow> release_gate_of (policy_with rg) = Some rg"
  by (simp add: release_gate_of_def policy_with_def dict_get_def py_or_def)

lemma tokyo_dir: "path_join ''outputs'' ''tokyo'' = ''outputs/tokyo''"
  "path_join ''outputs'' ''ny'' = ''outputs/ny''"
  "path_join ''outputs/tokyo'' ''a.json'' = ''outputs/tokyo/a.json''"
  "path_join ''outputs/tokyo'' ''policy_report.json'' = ''outputs/tokyo/policy_report.json''"
  "path_join ''outputs/tokyo'' ''policy_report_post.json'' = ''outputs/tokyo/policy_report_post.json''"
  "path_join ''outputs/tokyo'' ''manifest_signer.txt'' = ''outputs/tokyo/manifest_signer.txt''"
  "path_join ''outputs/tokyo'' ''manifest.sig'' = ''outputs/tokyo/manifest.sig''"
  "path_join ''outputs/tokyo'' ''extracted_findings.json'' = ''outputs/tokyo/extracted_findings.json''"
  "path_join ''outputs/tokyo'' ''consolidated_security_report.md'' = ''outputs/tokyo/consolidated_security_report.md''"
  "path_join ''outputs/ny'' ''policy_report.json'' = ''outputs/ny/policy_report.json''"
  by (simp_all add: path_join_def)




lemma with_file_simps:
  "files (with_file E p n) q = (if q = p then n else files E q)"
  "json_loads (with_file E p n) = json_loads E"
  "yaml_safe_load (with_file E p n) = yaml_safe_load E"
  by (simp_all add: with_file_def)

lemma read_json_eq:
  "read_json E p =
     ([ReadText p],
      case files E p of
        None \<Rightarrow> Inl FileNotFoundError
      | Some Dir \<Rightarrow> Inl IsADirectoryError
      | Some (File t) \<Rightarrow> (case json_loads E t of None \<Rightarrow> Inl JSONDecodeError | Some v \<Rightarrow> Inr v))"
  by (simp add: read_json_def read_text_def io_bind_def io_raise_def io_return_def
      split: option.splits node.splits)

lemma read_json_file: "files E p = Some (File t) \<Longrightarrow> json_loads E t = Some v \<Longrightarrow> read_json E p = ([ReadText p], Inr v)"
  by (simp add: read_json_eq)

lemma read_text_file: "files E p = Some (File t) \<Longrightarrow> read_text E p = ([ReadText p], Inr t)"
  by (simp add: read_text_def)

text \<open>Section 2: both reports are read before the status of the first is looked at.\<close>

lemma gate_policy_reports_pre_fail:
  assumes "files E (path_join out ''policy_report.json'') = Some (File t1)"
    and "json_loads E t1 = Some (JDict pre)"
    and "dict_get pre ''status'' JNull \<noteq> JStr ''PASS''"
  shows "gate_policy_reports E rg mode out =
     ([ReadText (path_join out ''policy_report.json''), ReadText (path_join out ''policy_report_post.json'')]
        @ (case snd (read_json E (path_join out ''policy_report_post.json'')) of
             Inl e \<Rightarrow> []
           | Inr post \<Rightarrow> map Print (summary_lines mode zero_counts []
                 [PolicyReportStatus (dict_get pre ''status'' JNull) (dict_get pre ''hard_fail_hits'' JNull)])),
      case snd (read_json E (path_join out ''policy_report_post.json'')) of
        Inl e \<Rightarrow> Inl e
      | Inr post \<Rightarrow> Inr E_POLICY_FAIL)"
proof (cases "snd (read_json E (path_join out ''policy_report_post.json''))")
  case (Inl e)
  have "fst (read_json E (path_join out ''policy_report_post.json'')) = [ReadText (path_join out ''policy_report_post.json'')]"
    by (simp add: read_json_eq)
  with Inl have r: "read_json E (path_join out ''policy_report_post.json'') = ([ReadText (path_join out ''policy_report_post.json'')], Inl e)"
    by (simp add: prod_eq_iff)
  show ?thesis unfolding gate_policy_reports_def read_json_file [OF assms(1,2)] r
    by (simp add: io_simps)
next
  case (Inr post)
  have "fst (read_json E (path_join out ''policy_report_post.json'')) = [ReadText (path_join out ''policy_report_post.json'')]"
    by (simp add: read_json_eq)
  with Inr have r: "read_json E (path_join out ''policy_report_post.json'') = ([ReadText (path_join out ''policy_report_post.json'')], Inr post)"
    by (simp add: prod_eq_iff)
  show ?thesis unfolding gate_policy_reports_def read_json_file [OF assms(1,2)] r
    using assms(3) by (simp add: io_simps)
qed

lemma report_passesD:
  assumes "report_passes E p"
  shows "\<exists>t d. files E p = Some (File t) \<and> json_loads E t = Some (JDict d) \<and> dict_get d ''status'' JNull = JStr ''PASS''"
proof -
  from assms obtain n where n: "files E p = Some n"
    by (cases "files E p") (simp_all add: report_passes_def)
  with assms obtain t where t: "n = File t" by (cases n) (simp_all add: report_passes_def)
  from assms n t obtain v where v: "json_loads E t = Some v"
    by (cases "json_loads E t") (simp_all add: report_passes_def)
  from assms n t v obtain d where d: "v = JDict d" by (cases v) (simp_all add: report_passes_def)
  from assms n t v d have "dict_get d ''status'' JNull = JStr ''PASS''" by (simp add: report_passes_def)
  with n t v d show ?thesis by simp
qed

lemma gate_policy_reports_pass:
  assumes "report_passes E (path_join out ''policy_report.json'')"
    and "report_passes E (path_join out ''policy_report_post.json'')"
  shows "gate_policy_reports E rg mode out =
     io_bind ([ReadText (path_join out ''policy_report.json''), ReadText (path_join out ''policy_report_post.json'')], Inr ())
       (\<lambda>u. gate_manifest E rg mode out)"
proof -
  from report_passesD [OF assms(1)] obtain t1 d1 where
    1: "files E (path_join out ''policy_report.json'') = Some (File t1)" "json_loads E t1 = Some (JDict d1)"
       "dict_get d1 ''status'' JNull = JStr ''PASS''" by blast
  from report_passesD [OF assms(2)] obtain t2 d2 where
    2: "files E (path_join out ''policy_report_post.json'') = Some (File t2)" "json_loads E t2 = Some (JDict d2)"
       "dict_get d2 ''status'' JNull = JStr ''PASS''" by blast
  show ?thesis unfolding gate_policy_reports_def read_json_file [OF 1(1,2)] read_json_file [OF 2(1,2)]
    by (simp add: io_simps 1(3) 2(3))
qed

lemma manifest_passesD:
  assumes "manifest_passes E rg out"
  shows "\<exists>t. files E (path_join out ''manifest_signer.txt'') = Some (File t)
     \<and> (truthy (dict_get rg ''require_signed_manifest'' (JBool True)) \<longrightarrow>
          (\<exists>xs allowed.
             py_iter (py_or (dict_get rg ''allowed_signers'' (JList [JStr ''minisign'', JStr ''openssl''])) (JList [])) = Inr xs
             \<and> lower_all xs = Inr allowed \<and> py_lower (py_strip t) \<in> set allowed
             \<and> files E (path_join out ''manifest.sig'') \<noteq> None))"
proof -
  let ?it = "py_iter (py_or (dict_get rg ''allowed_signers'' (JList [JStr ''minisign'', JStr ''openssl''])) (JList []))"
  from assms obtain n where n: "files E (path_join out ''manifest_signer.txt'') = Some n"
    by (cases "files E (path_join out ''manifest_signer.txt'')") (simp_all add: manifest_passes_def)
  with assms obtain t where t: "n = File t" by (cases n) (simp_all add: manifest_passes_def)
  have "\<exists>xs allowed. ?it = Inr xs \<and> lower_all xs = Inr allowed \<and> py_lower (py_strip t) \<in> set allowed
             \<and> files E (path_join out ''manifest.sig'') \<noteq> None"
    if req: "truthy (dict_get rg ''require_signed_manifest'' (JBool True))"
  proof -
    from assms n t req obtain xs where xs: "?it = Inr xs"
      by (cases ?it) (simp_all add: manifest_passes_def)
    from assms n t req xs obtain allowed where al: "lower_all xs = Inr allowed"
      by (cases "lower_all xs") (simp_all add: manifest_passes_def)
    from assms n t req xs al have "py_lower (py_strip t) \<in> set allowed \<and> files E (path_join out ''manifest.sig'') \<noteq> None"
      by (simp add: manifest_passes_def del: not_None_eq)
    with xs al show ?thesis by blast
  qed
  with n t show ?thesis by blast
qed

lemma gate_manifest_pass:
  assumes "manifest_passes E rg out"
  shows "\<exists>t. (t = [ReadText (path_join out ''manifest_signer.txt'')]
            \<or> t = [ReadText (path_join out ''manifest_signer.txt''), Exists (path_join out ''manifest.sig'')])
       \<and> gate_manifest E (JDict rg) mode out = io_bind (t, Inr ()) (\<lambda>u. gate_findings E (JDict rg) mode out)"
proof -
  from manifest_passesD [OF assms] obtain stxt where
    f: "files E (path_join out ''manifest_signer.txt'') = Some (File stxt)"
    and r: "truthy (dict_get rg ''require_signed_manifest'' (JBool True)) \<longrightarrow>
          (\<exists>xs allowed.
             py_iter (py_or (dict_get rg ''allowed_signers'' (JList [JStr ''minisign'', JStr ''openssl''])) (JList [])) = Inr xs
             \<and> lower_all xs = Inr allowed \<and> py_lower (py_strip stxt) \<in> set allowed
             \<and> files E (path_join out ''manifest.sig'') \<noteq> None)"
    by blast
  show ?thesis
  proof (cases "truthy (dict_get rg ''require_signed_manifest'' (JBool True))")
    case False
    then have "gate_manifest E (JDict rg) mode out
        = io_bind ([ReadText (path_join out ''manifest_signer.txt'')], Inr ()) (\<lambda>u. gate_findings E (JDict rg) mode out)"
      unfolding gate_manifest_def read_text_file [OF f] by (simp add: io_simps)
    then show ?thesis by blast
  next
    case True
    with r obtain xs allowed where
      a: "py_iter (py_or (dict_get rg ''allowed_signers'' (JList [JStr ''minisign'', JStr ''openssl''])) (JList [])) = Inr xs"
         "lower_all xs = Inr allowed" "py_lower (py_strip stxt) \<in> set allowed"
         "files E (path_join out ''manifest.sig'') \<noteq> None"
      by blast
    have "gate_manifest E (JDict rg) mode out
        = io_bind ([ReadText (path_join out ''manifest_signer.txt''), Exists (path_join out ''manifest.sig'')], Inr ())
            (\<lambda>u. gate_findings E (JDict rg) mode out)"
      unfolding gate_manifest_def read_text_file [OF f] using True a
      by (simp add: io_simps path_exists_def del: not_None_eq)
    then show ?thesis by blast
  qed
qed


lemma gate_one_mode_files_listed:
  assumes "release_gate_of policy = Some rg" "enabled rg"
    and "dict_get rg ''required_files'' (JList []) = JList (map JStr paths)"
    and "list_all (\<lambda>rel. files E (path_join (path_join base mode) rel) \<noteq> None) paths"
  shows "gate_one_mode E policy mode base =
     io_bind (map (\<lambda>rel. Exists (path_join (path_join base mode) rel)) paths, Inr ())
       (\<lambda>u. gate_policy_reports E (JDict rg) mode (path_join base mode))"
proof -
  have it: "py_iter (py_or (dict_get rg ''required_files'' (JList [])) (JList [])) = Inr (map JStr paths)"
    unfolding assms(3) by (cases paths) (simp_all add: py_or_def py_iter_def)
  have m: "filter (\<lambda>rel. files E (path_join (path_join base mode) rel) = None) paths = []"
    using assms(4) by (simp add: filter_empty_conv list_all_iff)
  show ?thesis unfolding gate_one_mode_enabled [OF assms(1,2)] it
    by (simp add: io_simps missing_files_strs m)
qed

text \<open>
  C10. Where the gate is enabled and every required file exists, the gate reads and
  parses \<^verbatim>\<open>policy_report.json\<close> and then \<^verbatim>\<open>policy_report_post.json\<close> before it
  looks at the status of the first. With a first report whose status is not
  \<^verbatim>\<open>PASS\<close>, the gate returns 10 exactly when the second report is a file that
  parses; where it is missing, a directory, or does not parse, the run ends with the
  exception of that read and prints nothing.
\<close>

theorem gate_pre_status_needs_post_report:
  assumes "release_gate_of policy = Some rg" "enabled rg"
    and "out = path_join base mode"
    and "dict_get rg ''required_files'' (JList []) = JList (map JStr paths)"
    and "list_all (\<lambda>rel. files E (path_join out rel) \<noteq> None) paths"
    and "files E (path_join out ''policy_report.json'') = Some (File t1)"
    and "json_loads E t1 = Some (JDict pre)"
    and "dict_get pre ''status'' JNull \<noteq> JStr ''PASS''"
  shows "gate_one_mode E policy mode base =
     (map (\<lambda>rel. Exists (path_join out rel)) paths
        @ [ReadText (path_join out ''policy_report.json''), ReadText (path_join out ''policy_report_post.json'')]
        @ (case files E (path_join out ''policy_report_post.json'') of
             Some (File t2) \<Rightarrow>
               (case json_loads E t2 of
                  Some post \<Rightarrow> map Print (summary_lines mode zero_counts []
                      [PolicyReportStatus (dict_get pre ''status'' JNull) (dict_get pre ''hard_fail_hits'' JNull)])
                | None \<Rightarrow> [])
           | _ \<Rightarrow> []),
      case files E (path_join out ''policy_report_post.json'') of
        Some (File t2) \<Rightarrow>
          (case json_loads E t2 of Some post \<Rightarrow> Inr E_POLICY_FAIL | None \<Rightarrow> Inl JSONDecodeError)
      | Some Dir \<Rightarrow> Inl IsADirectoryError
      | None \<Rightarrow> Inl FileNotFoundError)"
proof -
  have g: "gate_one_mode E policy mode base =
          io_bind (map (\<lambda>rel. Exists (path_join out rel)) paths, Inr ())
            (\<lambda>u. gate_policy_reports E (JDict rg) mode out)"
    using gate_one_mode_files_listed [OF assms(1,2,4) assms(5) [unfolded assms(3)]]
    unfolding assms(3) .
  show ?thesis
    unfolding g gate_policy_reports_pre_fail [OF assms(6,7,8)]
    by (simp add: io_simps read_json_eq split: option.splits node.splits)
qed

theorem gate_pre_status_needs_post_report_witness:
  "gate_one_mode
      (with_file (with_file ex_env ''outputs/tokyo/policy_report.json'' (Some (File ''{status: FAIL}'')))
         ''outputs/tokyo/policy_report_post.json'' None)
      (JDict []) ''tokyo'' ''outputs''
     = ([ReadText ''outputs/tokyo/policy_report.json'', ReadText ''outputs/tokyo/policy_report_post.json''],
        Inl FileNotFoundError)
   \<and> snd (gate_one_mode
      (with_file ex_env ''outputs/tokyo/policy_report.json'' (Some (File ''{status: FAIL}'')))
      (JDict []) ''tokyo'' ''outputs'') = Inr 10"
proof -
  let ?E1 = "with_file ex_env ''outputs/tokyo/policy_report.json'' (Some (File ''{status: FAIL}''))"
  let ?E2 = "with_file ?E1 ''outputs/tokyo/policy_report_post.json'' None"
  let ?pre = "[(''status'', JStr ''FAIL''), (''hard_fail_hits'', JInt 2)]"
  have 1: "release_gate_of (JDict []) = Some []"
    by (simp add: release_gate_of_def dict_get_def py_or_def)
  have 2: "enabled []" by (simp add: enabled_def dict_get_def)
  have 3: "''outputs/tokyo'' = path_join ''outputs'' ''tokyo''" by (simp add: path_join_def)
  have 4: "dict_get [] ''required_files'' (JList []) = JList (map JStr [])" by (simp add: dict_get_def)
  have lst: "list_all (\<lambda>rel. files E (path_join ''outputs/tokyo'' rel) \<noteq> None) []" for E by simp
  have pj: "path_join ''outputs/tokyo'' ''policy_report.json'' = ''outputs/tokyo/policy_report.json''"
    "path_join ''outputs/tokyo'' ''policy_report_post.json'' = ''outputs/tokyo/policy_report_post.json''"
    by (simp_all add: path_join_def)
  have 5: "files ?E2 (path_join ''outputs/tokyo'' ''policy_report.json'') = Some (File ''{status: FAIL}'')"
    "files ?E1 (path_join ''outputs/tokyo'' ''policy_report.json'') = Some (File ''{status: FAIL}'')"
    by (simp_all add: pj with_file_simps)
  have 6: "json_loads ?E2 ''{status: FAIL}'' = Some (JDict ?pre)" "json_loads ?E1 ''{status: FAIL}'' = Some (JDict ?pre)"
    by (simp_all add: with_file_simps ex_env_def ex_loads_def)
  have 7: "dict_get ?pre ''status'' JNull \<noteq> JStr ''PASS''" by (simp add: dict_get_def)
  have p2: "files ?E2 ''outputs/tokyo/policy_report_post.json'' = None" by (simp add: with_file_simps)
  have p1: "files ?E1 ''outputs/tokyo/policy_report_post.json'' = Some (File ''{status: PASS}'')"
    by (simp add: with_file_simps ex_files_simps)
  have l1: "json_loads ?E1 ''{status: PASS}'' = Some (JDict [(''status'', JStr ''PASS'')])"
    by (simp add: with_file_simps ex_env_def ex_loads_def)
  have a: "gate_one_mode ?E2 (JDict []) ''tokyo'' ''outputs''
     = ([ReadText ''outputs/tokyo/policy_report.json'', ReadText ''outputs/tokyo/policy_report_post.json''],
        Inl FileNotFoundError)"
    using gate_pre_status_needs_post_report [OF 1 2 3 4 lst 5(1) 6(1) 7]
    unfolding pj p2 by simp
  have b: "snd (gate_one_mode ?E1 (JDict []) ''tokyo'' ''outputs'') = Inr 10"
    using gate_pre_status_needs_post_report [OF 1 2 3 4 lst 5(2) 6(2) 7]
    unfolding pj p1 by (simp add: l1 E_POLICY_FAIL_def)
  from a b show ?thesis by simp
qed

text \<open>Sections 4 and 5, run forward.\<close>

lemma findings_countsD:
  assumes "findings_counts E out = Some counts"
  shows "\<exists>t fs. files E (path_join out ''extracted_findings.json'') = Some (File t)
           \<and> json_loads E t = Some (JList fs) \<and> count_severities fs = Inr counts"
proof -
  let ?p = "path_join out ''extracted_findings.json''"
  from assms obtain n where n: "files E ?p = Some n"
    by (cases "files E ?p") (simp_all add: findings_counts_def)
  with assms obtain t where t: "n = File t" by (cases n) (simp_all add: findings_counts_def)
  from assms n t obtain v where v: "json_loads E t = Some v"
    by (cases "json_loads E t") (simp_all add: findings_counts_def)
  from assms n t v obtain fs where fs: "v = JList fs" by (cases v) (simp_all add: findings_counts_def)
  from assms n t v fs have "count_severities fs = Inr counts"
    by (cases "count_severities fs") (simp_all add: findings_counts_def)
  with n t v fs show ?thesis by simp
qed

lemma gate_findings_pass:
  assumes "findings_counts E out = Some counts" "critical_high_pass rg counts"
    and "py_int (dict_get rg ''max_medium_findings'' (JInt 999999)) = Inr m"
  shows "gate_findings E (JDict rg) mode out =
     io_bind ([ReadText (path_join out ''extracted_findings.json'')], Inr ())
       (\<lambda>u. gate_report E (JDict rg) mode out counts
          (if dict_get counts ''MEDIUM'' 0 > m then [MediumExceed (dict_get counts ''MEDIUM'' 0) m] else []))"
proof -
  from findings_countsD [OF assms(1)] obtain t fs where
    f: "files E (path_join out ''extracted_findings.json'') = Some (File t)"
       "json_loads E t = Some (JList fs)" "count_severities fs = Inr counts" by blast
  from assms(2) obtain h where h: "py_int (dict_get rg ''max_high_findings'' (JInt 999999)) = Inr h"
    by (cases "py_int (dict_get rg ''max_high_findings'' (JInt 999999))") (simp_all add: critical_high_pass_def)
  from assms(2) h have c: "(truthy (dict_get rg ''fail_on_critical'' (JBool True)) \<and> 0 < dict_get counts ''CRITICAL'' 0) = False"
    and hh: "(h < dict_get counts ''HIGH'' 0) = False"
    by (auto simp: critical_high_pass_def split: if_splits)
  show ?thesis unfolding gate_findings_def read_json_file [OF f(1,2)]
    by (simp add: io_simps f(3) h assms(3) c hh)
qed

lemma gate_report_pass:
  assumes "sections_present E rg out"
  shows "gate_report E (JDict rg) mode out counts warns =
     (ReadText (path_join out ''consolidated_security_report.md'')
        # map Print (summary_lines mode counts warns []), Inr PASS)"
proof -
  let ?p = "path_join out ''consolidated_security_report.md''"
  from assms obtain n where n: "files E ?p = Some n"
    by (cases "files E ?p") (simp_all add: sections_present_def)
  with assms obtain md where md: "n = File md" by (cases n) (simp_all add: sections_present_def)
  from assms n md have ms: "report_missing_sections (py_or (dict_get rg ''required_report_sections'' (JList [])) (JList [])) md = Inr []"
    by (simp add: sections_present_def)
  from n md have f: "files E ?p = Some (File md)" by simp
  show ?thesis unfolding gate_report_def read_text_file [OF f]
    by (simp add: io_simps ms)
qed

text \<open>The lines of a trace.\<close>

lemma printed_simps:
  "printed [] = []"
  "printed (Exists p # t) = printed t"
  "printed (ReadText p # t) = printed t"
  "printed (Print l # t) = l # printed t"
  "printed (a @ b) = printed a @ printed b"
  by (simp_all add: printed_def)

lemma printed_map_Print: "printed (map Print ls) = ls"
  by (induction ls) (simp_all add: printed_simps)

lemma printed_map_Exists: "printed (map (\<lambda>rel. Exists (f rel)) paths) = []"
  by (induction paths) (simp_all add: printed_simps)

text \<open>The whole gate, where every validator passes.\<close>

lemma gate_one_mode_all_pass:
  assumes "release_gate_of policy = Some rg" "enabled rg" "out = path_join base mode"
    and "required_files_present E rg out"
    and "report_passes E (path_join out ''policy_report.json'')"
    and "report_passes E (path_join out ''policy_report_post.json'')"
    and "manifest_passes E rg out"
    and "findings_counts E out = Some counts" "critical_high_pass rg counts"
    and "py_int (dict_get rg ''max_medium_findings'' (JInt 999999)) = Inr m"
    and "sections_present E rg out"
  shows "snd (gate_one_mode E policy mode base) = Inr PASS
     \<and> printed (fst (gate_one_mode E policy mode base))
         = summary_lines mode counts
             (if dict_get counts ''MEDIUM'' 0 > m then [MediumExceed (dict_get counts ''MEDIUM'' 0) m] else []) []"
proof -
  from gate_one_mode_files_present [OF assms(1,2) assms(4) [unfolded assms(3)]] obtain paths where
    g1: "gate_one_mode E policy mode base =
          io_bind (map (\<lambda>rel. Exists (path_join out rel)) paths, Inr ())
            (\<lambda>u. gate_policy_reports E (JDict rg) mode out)"
    unfolding assms(3) by blast
  from gate_manifest_pass [OF assms(7), of mode] obtain t3 where
    t3: "t3 = [ReadText (path_join out ''manifest_signer.txt'')]
          \<or> t3 = [ReadText (path_join out ''manifest_signer.txt''), Exists (path_join out ''manifest.sig'')]"
    and g3: "gate_manifest E (JDict rg) mode out = io_bind (t3, Inr ()) (\<lambda>u. gate_findings E (JDict rg) mode out)"
    by blast
  have p3: "printed t3 = []" using t3 by (auto simp: printed_simps)
  show ?thesis
    unfolding g1 gate_policy_reports_pass [OF assms(5,6)] g3
      gate_findings_pass [OF assms(8,9,10)] gate_report_pass [OF assms(11)]
    by (simp add: io_simps printed_simps printed_map_Print printed_map_Exists p3)
qed

text \<open>The sample run, validator by validator.\<close>

lemma ex_required_files_present:
  "map_of rg ''required_files'' = None \<Longrightarrow> required_files_present E rg out"
  by (simp add: required_files_present_def dict_get_def py_or_def py_iter_def)

lemma ex_report_passes:
  "report_passes ex_env ''outputs/tokyo/policy_report.json''"
  "report_passes ex_env ''outputs/tokyo/policy_report_post.json''"
  by (simp_all add: report_passes_def ex_files_simps ex_loads_simps dict_get_def)


lemma ex_count: "count_severities (replicate 5 (JDict [(''severity'', JStr ''medium'')]))
    = Inr [(''CRITICAL'', 0), (''HIGH'', 0), (''MEDIUM'', 5), (''LOW'', 0), (''INFO'', 0), (''UNSPECIFIED'', 0)]"
  by code_simp

lemma ex_findings_counts:
  "findings_counts ex_env ''outputs/tokyo''
    = Some [(''CRITICAL'', 0), (''HIGH'', 0), (''MEDIUM'', 5), (''LOW'', 0), (''INFO'', 0), (''UNSPECIFIED'', 0)]"
  by (simp add: findings_counts_def tokyo_dir ex_files_simps ex_loads_simps ex_count)

lemma ex_critical_high_pass:
  "map_of rg ''max_high_findings'' = None \<Longrightarrow>
   critical_high_pass rg [(''CRITICAL'', 0), (''HIGH'', 0), (''MEDIUM'', 5), (''LOW'', 0), (''INFO'', 0), (''UNSPECIFIED'', 0)]"
  by (simp add: critical_high_pass_def dict_get_def py_int_def)

lemma ex_sections_present:
  "map_of rg ''required_report_sections'' = None \<Longrightarrow> sections_present ex_env rg ''outputs/tokyo''"
  by (simp add: sections_present_def tokyo_dir ex_files_simps dict_get_def py_or_def
      report_missing_sections_def py_iter_def)













text \<open>
  C4 at a concrete input. The policy does not require a signed manifest and every other
  artifact of the mode is in order: without \<^verbatim>\<open>manifest_signer.txt\<close> the gate raises,
  since it reads the file before it looks at \<^verbatim>\<open>require_signed_manifest\<close>; with the
  file the same policy passes.
\<close>

theorem gate_unsigned_reads_signer_file:
  "gate_one_mode (with_file ex_env ''outputs/tokyo/manifest_signer.txt'' None)
      (policy_with [(''require_signed_manifest'', JBool False)]) ''tokyo'' ''outputs''
     = ([ReadText ''outputs/tokyo/policy_report.json'', ReadText ''outputs/tokyo/policy_report_post.json'',
         ReadText ''outputs/tokyo/manifest_signer.txt''], Inl FileNotFoundError)
   \<and> snd (gate_one_mode ex_env (policy_with [(''require_signed_manifest'', JBool False)]) ''tokyo'' ''outputs'')
     = Inr 0"
proof -
  let ?rg = "[(''require_signed_manifest'', JBool False)]"
  let ?E = "with_file ex_env ''outputs/tokyo/manifest_signer.txt'' None"
  let ?c = "[(''CRITICAL'', 0), (''HIGH'', 0), (''MEDIUM'', 5), (''LOW'', 0), (''INFO'', 0), (''UNSPECIFIED'', 0)]"
  have 1: "release_gate_of (policy_with ?rg) = Some ?rg" by (simp add: policy_with_release_gate)
  have 2: "enabled ?rg" by (simp add: enabled_def dict_get_def)
  have 3: "''outputs/tokyo'' = path_join ''outputs'' ''tokyo''" by (simp add: path_join_def)
  have l: "dict_get ?rg ''required_files'' (JList []) = JList (map JStr [])" by (simp add: dict_get_def)
  have e: "list_all (\<lambda>rel. files E (path_join (path_join ''outputs'' ''tokyo'') rel) \<noteq> None) []" for E by simp
  have fs: "files ?E p = (if p = ''outputs/tokyo/manifest_signer.txt'' then None else files ex_env p)" for p
    by (simp add: with_file_simps)
  have r: "report_passes ?E (path_join ''outputs/tokyo'' ''policy_report.json'')"
    "report_passes ?E (path_join ''outputs/tokyo'' ''policy_report_post.json'')"
    by (simp_all add: report_passes_def tokyo_dir fs ex_files_simps with_file_simps ex_loads_simps dict_get_def)
  have a: "gate_one_mode ?E (policy_with ?rg) ''tokyo'' ''outputs''
     = ([ReadText ''outputs/tokyo/policy_report.json'', ReadText ''outputs/tokyo/policy_report_post.json'',
         ReadText ''outputs/tokyo/manifest_signer.txt''], Inl FileNotFoundError)"
    unfolding gate_one_mode_files_listed [OF 1 2 l e] tokyo_dir gate_policy_reports_pass [OF r]
    by (simp add: gate_manifest_def read_text_def io_simps tokyo_dir fs)
  have 4: "required_files_present ex_env ?rg ''outputs/tokyo''" by (simp add: ex_required_files_present)
  have 5: "report_passes ex_env (path_join ''outputs/tokyo'' ''policy_report.json'')"
    "report_passes ex_env (path_join ''outputs/tokyo'' ''policy_report_post.json'')"
    by (simp_all add: tokyo_dir ex_report_passes)
  have 6: "manifest_passes ex_env ?rg ''outputs/tokyo''"
    by (simp add: manifest_passes_def tokyo_dir ex_files_simps dict_get_def)
  have 7: "critical_high_pass ?rg ?c" by (simp add: ex_critical_high_pass)
  have 8: "sections_present ex_env ?rg ''outputs/tokyo''" by (simp add: ex_sections_present)
  have 9: "py_int (dict_get ?rg ''max_medium_findings'' (JInt 999999)) = Inr 999999"
    by (simp add: dict_get_def py_int_def)
  have b: "snd (gate_one_mode ex_env (policy_with ?rg) ''tokyo'' ''outputs'') = Inr 0"
    using gate_one_mode_all_pass [OF 1 2 3 4 5 6 ex_findings_counts 7 9 8] by (simp add: PASS_def)
  from a b show ?thesis by simp
qed

text \<open>The loop over the modes.\<close>

lemma main_modes:
  assumes "load_policy E (arg_policy a) = (t0, Inr policy)"
  shows "main E a = io_bind (t0, Inr ())
     (\<lambda>u. run_modes E policy (arg_outputs_dir a)
        (if arg_mode a = ''both'' then [''tokyo'', ''ny''] else [arg_mode a]))"
  by (simp add: main_def assms io_simps)

lemma run_modes_fail:
  assumes "gate_one_mode E policy m base = (t, Inr c)" "c \<noteq> PASS"
  shows "run_modes E policy base (m # ms) = (t @ [Print (ModeFailLine m c)], Inr c)"
  using assms by (simp add: io_simps)

lemma run_modes_pass:
  assumes "gate_one_mode E policy m base = (t, Inr PASS)"
  shows "run_modes E policy base (m # ms) = io_bind (t, Inr ()) (\<lambda>u. run_modes E policy base ms)"
  using assms by (simp add: io_simps)

lemma run_modes_Nil: "run_modes E policy base [] = ([Print OverallPassLine], Inr PASS)"
  by (simp add: io_simps)

text \<open>
  C1. A run of both modes evaluates \<^verbatim>\<open>tokyo\<close> first. Where its gate returns a code
  other than \<^verbatim>\<open>PASS\<close>, the run ends with that code, and its trace is the trace of
  loading the policy, that of the gate of \<^verbatim>\<open>tokyo\<close> and the line of the failure: the
  gate of \<^verbatim>\<open>ny\<close> is not evaluated and nothing of \<^verbatim>\<open>ny\<close> is tested or read, so
  that the run is the run of the mode \<^verbatim>\<open>tokyo\<close> alone. Where \<^verbatim>\<open>tokyo\<close> passes,
  \<^verbatim>\<open>ny\<close> is evaluated next and decides; where both pass, the run ends with 0.
\<close>

theorem main_both_fail_fast:
  assumes "arg_mode a = ''both''" and "load_policy E (arg_policy a) = (t0, Inr policy)"
    and "base = arg_outputs_dir a"
  shows "(gate_one_mode E policy ''tokyo'' base = (t1, Inr c) \<and> c \<noteq> PASS
          \<longrightarrow> main E a = (t0 @ t1 @ [Print (ModeFailLine ''tokyo'' c)], Inr c)
            \<and> main E a = main E (a\<lparr>arg_mode := ''tokyo''\<rparr>))
       \<and> (gate_one_mode E policy ''tokyo'' base = (t1, Inr PASS)
            \<and> gate_one_mode E policy ''ny'' base = (t2, Inr c) \<and> c \<noteq> PASS
          \<longrightarrow> main E a = (t0 @ t1 @ t2 @ [Print (ModeFailLine ''ny'' c)], Inr c))
       \<and> (gate_one_mode E policy ''tokyo'' base = (t1, Inr PASS)
            \<and> gate_one_mode E policy ''ny'' base = (t2, Inr PASS)
          \<longrightarrow> main E a = (t0 @ t1 @ t2 @ [Print OverallPassLine], Inr 0))"
proof (intro conjI impI)
  assume h: "gate_one_mode E policy ''tokyo'' base = (t1, Inr c) \<and> c \<noteq> PASS"
  then have g: "gate_one_mode E policy ''tokyo'' (arg_outputs_dir a) = (t1, Inr c)" and c: "c \<noteq> PASS"
    unfolding assms(3) by simp_all
  show m: "main E a = (t0 @ t1 @ [Print (ModeFailLine ''tokyo'' c)], Inr c)"
    unfolding main_modes [OF assms(2)] by (simp add: assms(1) run_modes_fail [OF g c] io_simps del: run_modes.simps)
  have "load_policy E (arg_policy (a\<lparr>arg_mode := ''tokyo''\<rparr>)) = (t0, Inr policy)" using assms(2) by simp
  from main_modes [OF this]
  have "main E (a\<lparr>arg_mode := ''tokyo''\<rparr>) = (t0 @ t1 @ [Print (ModeFailLine ''tokyo'' c)], Inr c)"
    by (simp add: run_modes_fail [OF g c] io_simps del: run_modes.simps)
  with m show "main E a = main E (a\<lparr>arg_mode := ''tokyo''\<rparr>)" by simp
next
  assume h: "gate_one_mode E policy ''tokyo'' base = (t1, Inr PASS)
            \<and> gate_one_mode E policy ''ny'' base = (t2, Inr c) \<and> c \<noteq> PASS"
  then have g1: "gate_one_mode E policy ''tokyo'' (arg_outputs_dir a) = (t1, Inr PASS)"
    and g2: "gate_one_mode E policy ''ny'' (arg_outputs_dir a) = (t2, Inr c)" and c: "c \<noteq> PASS"
    unfolding assms(3) by simp_all
  show "main E a = (t0 @ t1 @ t2 @ [Print (ModeFailLine ''ny'' c)], Inr c)"
    unfolding main_modes [OF assms(2)]
    by (simp add: assms(1) run_modes_pass [OF g1] run_modes_fail [OF g2 c] io_simps del: run_modes.simps)
next
  assume h: "gate_one_mode E policy ''tokyo'' base = (t1, Inr PASS)
            \<and> gate_one_mode E policy ''ny'' base = (t2, Inr PASS)"
  then have g1: "gate_one_mode E policy ''tokyo'' (arg_outputs_dir a) = (t1, Inr PASS)"
    and g2: "gate_one_mode E policy ''ny'' (arg_outputs_dir a) = (t2, Inr PASS)"
    unfolding assms(3) by simp_all
  show "main E a = (t0 @ t1 @ t2 @ [Print OverallPassLine], Inr 0)"
    unfolding main_modes [OF assms(2)]
    by (simp add: assms(1) run_modes_pass [OF g1] run_modes_pass [OF g2] run_modes_Nil io_simps PASS_def del: run_modes.simps)
qed

lemma ex_both_files:
  "files ex_env_both ''policy.yml'' = Some (File ''{}'')"
  "files ex_env_both ''outputs/tokyo/policy_report.json'' = Some (File ''{status: PASS}'')"
  "files ex_env_both ''outputs/tokyo/policy_report_post.json'' = Some (File ''{status: PASS}'')"
  "files ex_env_both ''outputs/tokyo/manifest_signer.txt'' = Some (File ''minisign'')"
  "files ex_env_both ''outputs/tokyo/manifest.sig'' = Some (File ''sig'')"
  "files ex_env_both ''outputs/tokyo/extracted_findings.json'' = Some (File ''[5 x medium]'')"
  "files ex_env_both ''outputs/tokyo/consolidated_security_report.md'' = Some (File ''# Summary'')"
  "files ex_env_both ''outputs/ny/policy_report.json'' = Some (File ''{status: PASS}'')"
  "files ex_env_both ''outputs/ny/policy_report_post.json'' = Some (File ''{status: PASS}'')"
  "files ex_env_both ''outputs/ny/manifest_signer.txt'' = Some (File ''minisign'')"
  "files ex_env_both ''outputs/ny/manifest.sig'' = Some (File ''sig'')"
  "files ex_env_both ''outputs/ny/extracted_findings.json'' = Some (File ''[5 x medium]'')"
  "files ex_env_both ''outputs/ny/consolidated_security_report.md'' = Some (File ''# Summary'')"
  by (simp_all add: ex_env_both_def ex_env_def ex_files_def)

lemma ex_both_loads: "json_loads ex_env_both = json_loads ex_env" "yaml_safe_load ex_env_both = None"
  by (simp_all add: ex_env_both_def ex_env_def)

lemma ny_dir:
  "path_join ''outputs/ny'' ''policy_report_post.json'' = ''outputs/ny/policy_report_post.json''"
  "path_join ''outputs/ny'' ''manifest_signer.txt'' = ''outputs/ny/manifest_signer.txt''"
  "path_join ''outputs/ny'' ''manifest.sig'' = ''outputs/ny/manifest.sig''"
  "path_join ''outputs/ny'' ''extracted_findings.json'' = ''outputs/ny/extracted_findings.json''"
  "path_join ''outputs/ny'' ''consolidated_security_report.md'' = ''outputs/ny/consolidated_security_report.md''"
  by (simp_all add: path_join_def)

lemma ex_both_pass:
  assumes "m = ''tokyo'' \<or> m = ''ny''"
  shows "snd (gate_one_mode ex_env_both (JDict []) m ''outputs'') = Inr PASS
     \<and> printed (fst (gate_one_mode ex_env_both (JDict []) m ''outputs''))
         = summary_lines m [(''CRITICAL'', 0), (''HIGH'', 0), (''MEDIUM'', 5), (''LOW'', 0), (''INFO'', 0), (''UNSPECIFIED'', 0)] [] []"
proof -
  let ?c = "[(''CRITICAL'', 0), (''HIGH'', 0), (''MEDIUM'', 5), (''LOW'', 0), (''INFO'', 0), (''UNSPECIFIED'', 0)]"
  let ?out = "path_join ''outputs'' m"
  have o: "?out = ''outputs/tokyo'' \<or> ?out = ''outputs/ny''" using assms by (auto simp: path_join_def)
  have 1: "release_gate_of (JDict []) = Some []" by (simp add: release_gate_of_def dict_get_def py_or_def)
  have 2: "enabled []" by (simp add: enabled_def dict_get_def)
  have 4: "required_files_present ex_env_both [] ?out" by (simp add: ex_required_files_present)
  have 5: "report_passes ex_env_both (path_join ?out ''policy_report.json'')"
    "report_passes ex_env_both (path_join ?out ''policy_report_post.json'')"
    using o by (auto simp: report_passes_def tokyo_dir ny_dir ex_both_files ex_both_loads ex_loads_simps dict_get_def)
  have 6: "manifest_passes ex_env_both [] ?out"
    using o by (auto simp: manifest_passes_def tokyo_dir ny_dir ex_both_files dict_get_def py_or_def py_iter_def
      py_lower_def lower_char_def is_upper_char_def py_strip_def is_space_def)
  have 7: "findings_counts ex_env_both ?out = Some ?c"
    using o by (auto simp: findings_counts_def tokyo_dir ny_dir ex_both_files ex_both_loads ex_loads_simps ex_count)
  have 8: "critical_high_pass [] ?c" by (simp add: ex_critical_high_pass)
  have 9: "py_int (dict_get [] ''max_medium_findings'' (JInt 999999)) = Inr 999999"
    by (simp add: dict_get_def py_int_def)
  have 10: "sections_present ex_env_both [] ?out"
    using o by (auto simp: sections_present_def tokyo_dir ny_dir ex_both_files dict_get_def py_or_def
      report_missing_sections_def py_iter_def)
  from gate_one_mode_all_pass [OF 1 2 refl 4 5 6 7 8 9 10] show ?thesis by (simp add: dict_get_def)
qed

theorem main_both_fail_fast_witness:
  "main (with_file ex_env ''outputs/tokyo/policy_report.json'' (Some (File ''{status: FAIL}''))) ex_args
     = ([ReadText ''policy.yml'',
         ReadText ''outputs/tokyo/policy_report.json'', ReadText ''outputs/tokyo/policy_report_post.json'',
         Print (SummaryHeader ''tokyo''), Print CountsTitle,
         Print (CountRow ''CRITICAL'' 0), Print (CountRow ''HIGH'' 0), Print (CountRow ''MEDIUM'' 0),
         Print (CountRow ''LOW'' 0), Print (CountRow ''INFO'' 0), Print (CountRow ''UNSPECIFIED'' 0),
         Print FailuresTitle, Print (Bullet (PolicyReportStatus (JStr ''FAIL'') (JInt 2))), Print SummaryFooter,
         Print (ModeFailLine ''tokyo'' 10)], Inr 10)
   \<and> snd (main ex_env_both ex_args) = Inr 0
   \<and> printed (fst (main ex_env_both ex_args))
       = [SummaryHeader ''tokyo'', CountsTitle, CountRow ''CRITICAL'' 0, CountRow ''HIGH'' 0,
          CountRow ''MEDIUM'' 5, CountRow ''LOW'' 0, CountRow ''INFO'' 0, CountRow ''UNSPECIFIED'' 0,
          SummaryFooter,
          SummaryHeader ''ny'', CountsTitle, CountRow ''CRITICAL'' 0, CountRow ''HIGH'' 0,
          CountRow ''MEDIUM'' 5, CountRow ''LOW'' 0, CountRow ''INFO'' 0, CountRow ''UNSPECIFIED'' 0,
          SummaryFooter,
          OverallPassLine]"
proof -
  let ?E = "with_file ex_env ''outputs/tokyo/policy_report.json'' (Some (File ''{status: FAIL}''))"
  let ?pre = "[(''status'', JStr ''FAIL''), (''hard_fail_hits'', JInt 2)]"
  let ?sum = "map Print (summary_lines ''tokyo'' zero_counts [] [PolicyReportStatus (JStr ''FAIL'') (JInt 2)])"
  have am: "arg_mode ex_args = ''both''" and ap: "arg_policy ex_args = ''policy.yml''"
    and ao: "''outputs'' = arg_outputs_dir ex_args" by (simp_all add: ex_args_def)
  have fs: "files ?E p = (if p = ''outputs/tokyo/policy_report.json'' then Some (File ''{status: FAIL}'') else files ex_env p)" for p
    by (simp add: with_file_simps)
  have lp: "load_policy ?E (arg_policy ex_args) = ([ReadText ''policy.yml''], Inr (JDict []))"
    by (simp add: ap load_policy_def read_text_def fs ex_files_simps with_file_simps ex_loads_simps io_simps
        io_return_def ex_env_def [THEN arg_cong, of yaml_safe_load])
  have 1: "release_gate_of (JDict []) = Some []" by (simp add: release_gate_of_def dict_get_def py_or_def)
  have 2: "enabled []" by (simp add: enabled_def dict_get_def)
  have l: "dict_get [] ''required_files'' (JList []) = JList (map JStr [])" by (simp add: dict_get_def)
  have e: "list_all (\<lambda>rel. files ?E (path_join (path_join ''outputs'' ''tokyo'') rel) \<noteq> None) []" by simp
  have p1: "files ?E (path_join ''outputs/tokyo'' ''policy_report.json'') = Some (File ''{status: FAIL}'')"
    by (simp add: tokyo_dir fs)
  have p2: "json_loads ?E ''{status: FAIL}'' = Some (JDict ?pre)" by (simp add: with_file_simps ex_loads_simps)
  have p3: "dict_get ?pre ''status'' JNull \<noteq> JStr ''PASS''" by (simp add: dict_get_def)
  have g: "gate_one_mode ?E (JDict []) ''tokyo'' ''outputs''
      = ([ReadText ''outputs/tokyo/policy_report.json'', ReadText ''outputs/tokyo/policy_report_post.json''] @ ?sum, Inr 10)"
    unfolding gate_one_mode_files_listed [OF 1 2 l e] tokyo_dir gate_policy_reports_pre_fail [OF p1 p2 p3]
    by (simp add: io_simps read_json_eq tokyo_dir fs ex_files_simps with_file_simps ex_loads_simps dict_get_def
        E_POLICY_FAIL_def)
  have c: "(10::int) \<noteq> PASS" by (simp add: PASS_def)
  have a: "main ?E ex_args = ([ReadText ''policy.yml''] @
        ([ReadText ''outputs/tokyo/policy_report.json'', ReadText ''outputs/tokyo/policy_report_post.json''] @ ?sum)
        @ [Print (ModeFailLine ''tokyo'' 10)], Inr 10)"
    using main_both_fail_fast [OF am lp ao, of _ 10] g c by simp
  have lp2: "load_policy ex_env_both (arg_policy ex_args) = ([ReadText ''policy.yml''], Inr (JDict []))"
    by (simp add: ap load_policy_def read_text_def ex_both_files ex_both_loads ex_loads_simps io_simps
        io_return_def)
  obtain t1 where t1: "gate_one_mode ex_env_both (JDict []) ''tokyo'' ''outputs'' = (t1, Inr PASS)"
    using ex_both_pass [of "''tokyo''"] by (cases "gate_one_mode ex_env_both (JDict []) ''tokyo'' ''outputs''") simp
  obtain t2 where t2: "gate_one_mode ex_env_both (JDict []) ''ny'' ''outputs'' = (t2, Inr PASS)"
    using ex_both_pass [of "''ny''"] by (cases "gate_one_mode ex_env_both (JDict []) ''ny'' ''outputs''") simp
  have b: "main ex_env_both ex_args = ([ReadText ''policy.yml''] @ t1 @ t2 @ [Print OverallPassLine], Inr 0)"
    using main_both_fail_fast [OF am lp2 ao, of t1 _ t2] t1 t2 by simp
  have pt: "printed t1 = summary_lines ''tokyo'' [(''CRITICAL'', 0), (''HIGH'', 0), (''MEDIUM'', 5), (''LOW'', 0), (''INFO'', 0), (''UNSPECIFIED'', 0)] [] []"
    "printed t2 = summary_lines ''ny'' [(''CRITICAL'', 0), (''HIGH'', 0), (''MEDIUM'', 5), (''LOW'', 0), (''INFO'', 0), (''UNSPECIFIED'', 0)] [] []"
    using ex_both_pass [of "''tokyo''"] ex_both_pass [of "''ny''"] t1 t2 by simp_all
  show ?thesis unfolding a b
    by (simp add: printed_simps pt summary_lines_def zero_counts_def SEV_ORDER_def dict_get_def)
qed

text \<open>Every run that returns prints one summary.\<close>

lemma count_severities_keys:
  assumes "count_severities fs = Inr counts"
  shows "map fst counts = SEV_ORDER"
proof (cases "\<forall>f\<in>set fs. is_dict f")
  case True
  from count_severities_closed [OF True] assms show ?thesis by (auto simp: comp_def)
next
  case False
  have "map fst zero_counts = SEV_ORDER" by (simp add: zero_counts_def comp_def)
  from count_loop_not_dict [OF False this] assms show ?thesis by (simp add: count_severities_def)
qed

lemma zero_counts_keys: "map fst zero_counts = SEV_ORDER"
  by (simp add: zero_counts_def comp_def)

lemma sr_bind:
  assumes "printed (fst m) = []" "\<And>x. snd m = Inr x \<Longrightarrow> summary_or_raise mode (k x)"
  shows "summary_or_raise mode (io_bind m k)"
proof (cases "snd m")
  case (Inl e)
  then show ?thesis by (simp add: summary_or_raise_def io_bind_def)
next
  case (Inr x)
  with assms(2) have "summary_or_raise mode (k x)" by simp
  with Inr assms(1) show ?thesis
    by (auto simp: summary_or_raise_def io_bind_def one_summary_def printed_simps split: sum.splits)
qed

lemma sr_lift:
  assumes "\<And>x. r = Inr x \<Longrightarrow> summary_or_raise mode (k x)"
  shows "summary_or_raise mode (io_bind (io_lift r) k)"
  by (rule sr_bind) (simp_all add: io_lift_def printed_simps assms)

lemma sr_summary:
  assumes "map fst counts = SEV_ORDER" "(fails = []) = (code = PASS)"
  shows "summary_or_raise mode (io_then (summarize mode counts warns fails) (io_return code))"
  using assms by (auto simp: summary_or_raise_def summarize_return one_summary_def printed_map_Print)

lemma sr_if:
  assumes "c \<Longrightarrow> summary_or_raise mode a" "\<not> c \<Longrightarrow> summary_or_raise mode b"
  shows "summary_or_raise mode (if c then a else b)"
  using assms by simp

lemma printed_read_text: "printed (fst (read_text E p)) = []"
  by (simp add: read_text_def printed_simps)

lemma printed_read_json: "printed (fst (read_json E p)) = []"
  by (simp add: read_json_eq printed_simps)

lemma printed_path_exists: "printed (fst (path_exists E p)) = []"
  by (simp add: path_exists_def printed_simps)

lemma fst_io_bind: "fst (io_bind m k) = fst m @ (case snd m of Inl e \<Rightarrow> [] | Inr x \<Rightarrow> fst (k x))"
  by (simp add: io_bind_def split: sum.splits)

lemma printed_missing_files: "printed (fst (missing_files E out xs)) = []"
proof (induction xs)
  case Nil
  then show ?case by (simp add: io_return_def printed_simps)
next
  case (Cons x xs)
  then show ?case
    by (cases x)
       (simp_all add: io_raise_def io_return_def printed_simps fst_io_bind file_exists_def
          path_exists_def split: sum.splits)
qed

lemma sr_gate_report:
  assumes "map fst counts = SEV_ORDER"
  shows "summary_or_raise mode (gate_report E rg mode out counts warns)"
  unfolding gate_report_def Let_def
  by (intro sr_bind sr_lift sr_if sr_summary printed_read_text assms)
     (simp_all add: E_REPORT_SECTIONS_def PASS_def)

lemma sr_case_list:
  assumes "\<And>fs. v = JList fs \<Longrightarrow> summary_or_raise mode (A fs)" "summary_or_raise mode B"
  shows "summary_or_raise mode (case v of JList fs \<Rightarrow> A fs | _ \<Rightarrow> B)"
  using assms by (cases v) simp_all

lemma sr_gate_findings: "summary_or_raise mode (gate_findings E rg mode out)"
  unfolding gate_findings_def Let_def
  by (intro sr_bind sr_lift sr_if sr_summary sr_case_list sr_gate_report printed_read_json
        zero_counts_keys)
     (auto dest: count_severities_keys
        simp: E_CRITICAL_PRESENT_def E_HIGH_THRESHOLD_def E_REQUIRED_OUTPUTS_def PASS_def)

lemma sr_gate_manifest: "summary_or_raise mode (gate_manifest E rg mode out)"
  unfolding gate_manifest_def Let_def
  by (intro sr_bind sr_lift sr_if sr_summary sr_gate_findings printed_read_text printed_path_exists
        zero_counts_keys)
     (simp_all add: E_MANIFEST_SIGN_def PASS_def)

lemma sr_gate_policy_reports: "summary_or_raise mode (gate_policy_reports E rg mode out)"
  unfolding gate_policy_reports_def
  by (intro sr_bind sr_lift sr_if sr_summary sr_gate_manifest printed_read_json zero_counts_keys)
     (simp_all add: E_POLICY_FAIL_def E_SECRETS_IN_OUTPUTS_def PASS_def)

lemma sr_summary_pair:
  assumes "map fst counts = SEV_ORDER" "(fails = []) = (code = PASS)"
  shows "summary_or_raise mode (map Print (summary_lines mode counts warns fails), Inr code)"
  using assms by (auto simp: summary_or_raise_def one_summary_def printed_map_Print)

lemma sr_gate_one_mode_enabled:
  assumes "release_gate_of policy = Some rg" "enabled rg"
  shows "summary_or_raise mode (gate_one_mode E policy mode base)"
  unfolding gate_one_mode_enabled [OF assms]
  by (intro sr_bind sr_lift sr_if sr_summary_pair sr_gate_policy_reports printed_missing_files
        zero_counts_keys)
     (simp_all add: PASS_def)

lemma gate_one_mode_returns_release_gate:
  assumes "gate_one_mode E policy mode base = (t, Inr c)"
  shows "\<exists>rg. release_gate_of policy = Some rg"
proof -
  obtain p where p: "policy = JDict p"
    using assms by (cases policy) (simp_all add: gate_one_mode_def py_get_def io_simps)
  let ?v = "py_or (dict_get p ''release_gate'' (JDict [])) (JDict [])"
  obtain rg where rg: "?v = JDict rg"
    using assms unfolding p by (cases ?v) (simp_all add: gate_one_mode_def py_get_def io_simps)
  then have "release_gate_of policy = Some rg" by (simp add: release_gate_of_def p)
  then show ?thesis by blast
qed

lemma ex_pre_fail_gate:
  "gate_one_mode (with_file ex_env ''outputs/tokyo/policy_report.json'' (Some (File ''{status: FAIL}'')))
      (JDict []) ''tokyo'' ''outputs''
   = ([ReadText ''outputs/tokyo/policy_report.json'', ReadText ''outputs/tokyo/policy_report_post.json'']
        @ map Print (summary_lines ''tokyo'' zero_counts [] [PolicyReportStatus (JStr ''FAIL'') (JInt 2)]),
      Inr 10)"
proof -
  let ?E = "with_file ex_env ''outputs/tokyo/policy_report.json'' (Some (File ''{status: FAIL}''))"
  let ?pre = "[(''status'', JStr ''FAIL''), (''hard_fail_hits'', JInt 2)]"
  have fs: "files ?E p = (if p = ''outputs/tokyo/policy_report.json'' then Some (File ''{status: FAIL}'') else files ex_env p)" for p
    by (simp add: with_file_simps)
  have 1: "release_gate_of (JDict []) = Some []" by (simp add: release_gate_of_def dict_get_def py_or_def)
  have 2: "enabled []" by (simp add: enabled_def dict_get_def)
  have l: "dict_get [] ''required_files'' (JList []) = JList (map JStr [])" by (simp add: dict_get_def)
  have e: "list_all (\<lambda>rel. files ?E (path_join (path_join ''outputs'' ''tokyo'') rel) \<noteq> None) []" by simp
  have p1: "files ?E (path_join ''outputs/tokyo'' ''policy_report.json'') = Some (File ''{status: FAIL}'')"
    by (simp add: tokyo_dir fs)
  have p2: "json_loads ?E ''{status: FAIL}'' = Some (JDict ?pre)" by (simp add: with_file_simps ex_loads_simps)
  have p3: "dict_get ?pre ''status'' JNull \<noteq> JStr ''PASS''" by (simp add: dict_get_def)
  show ?thesis
    unfolding gate_one_mode_files_listed [OF 1 2 l e] tokyo_dir gate_policy_reports_pre_fail [OF p1 p2 p3]
    by (simp add: io_simps read_json_eq tokyo_dir fs ex_files_simps with_file_simps ex_loads_simps dict_get_def
        E_POLICY_FAIL_def)
qed

text \<open>
  C9, as stated, fails for the short-circuit of a disabled gate: the run prints the one
  line that says so and no summary.
\<close>

theorem gate_disabled_prints_no_summary_counterexample:
  "gate_one_mode ex_env (policy_with [(''enabled'', JBool False)]) ''tokyo'' ''outputs''
     = ([Print (DisabledLine ''tokyo'')], Inr PASS)
   \<and> SummaryHeader ''tokyo'' \<notin> set (printed [Print (DisabledLine ''tokyo'')])"
proof -
  have "release_gate_of (policy_with [(''enabled'', JBool False)]) = Some [(''enabled'', JBool False)]"
    by (simp add: policy_with_release_gate)
  moreover have "\<not> enabled [(''enabled'', JBool False)]" by (simp add: enabled_def dict_get_def)
  ultimately show ?thesis by (simp add: gate_one_mode_disabled printed_simps PASS_def)
qed

text \<open>
  C9, amended. Every evaluation of a mode that returns a code, with the gate enabled,
  prints exactly one summary: the header with the name of the mode, a row for each of
  the six severities, the warnings and the failures, of which there is one exactly when
  the code is not \<^verbatim>\<open>PASS\<close>. With the gate disabled the evaluation prints the line of
  the short-circuit and nothing else, and returns \<^verbatim>\<open>PASS\<close>.
\<close>

theorem gate_prints_one_summary:
  assumes "gate_one_mode E policy mode base = (t, Inr c)"
  shows "\<exists>rg. release_gate_of policy = Some rg
     \<and> (if enabled rg then
          (\<exists>counts warns fails.
             printed t = summary_lines mode counts warns fails
             \<and> map fst counts = SEV_ORDER \<and> ((fails = []) = (c = PASS)))
        else printed t = [DisabledLine mode] \<and> c = PASS)"
proof -
  from gate_one_mode_returns_release_gate [OF assms] obtain rg where rg: "release_gate_of policy = Some rg"
    by blast
  show ?thesis
  proof (cases "enabled rg")
    case True
    from sr_gate_one_mode_enabled [OF rg True, of mode E base] assms
    have "one_summary mode t c" by (simp add: summary_or_raise_def)
    with rg True show ?thesis by (auto simp: one_summary_def)
  next
    case False
    from gate_one_mode_disabled [OF rg False, of E mode base] assms
    have "t = [Print (DisabledLine mode)]" "c = PASS" by (simp_all add: PASS_def)
    with rg False show ?thesis by (auto simp: printed_simps)
  qed
qed

theorem gate_prints_one_summary_witness:
  "\<exists>rg. release_gate_of (JDict []) = Some rg
     \<and> (if enabled rg then
          (\<exists>counts warns fails.
             printed ([ReadText ''outputs/tokyo/policy_report.json'', ReadText ''outputs/tokyo/policy_report_post.json'']
                @ map Print (summary_lines ''tokyo'' zero_counts [] [PolicyReportStatus (JStr ''FAIL'') (JInt 2)]))
               = summary_lines ''tokyo'' counts warns fails
             \<and> map fst counts = SEV_ORDER \<and> ((fails = []) = ((10::int) = PASS)))
        else printed ([ReadText ''outputs/tokyo/policy_report.json'', ReadText ''outputs/tokyo/policy_report_post.json'']
                @ map Print (summary_lines ''tokyo'' zero_counts [] [PolicyReportStatus (JStr ''FAIL'') (JInt 2)]))
               = [DisabledLine ''tokyo''] \<and> (10::int) = PASS)"
  by (rule gate_prints_one_summary [OF ex_pre_fail_gate])

end
